theory Spec2Isabelle
  imports
    Complex_Main
    "HOL-Library.AList"
    "HOL-Library.Char_ord"
    "HOL-Library.List_Lexorder"
    "HOL-Library.Multiset"
begin

section \<open>Values of the Python runtime\<close>

text \<open>
  A Python \<open>float\<close> is an IEEE double. The program only compares prices and takes
  \<open>max\<close>/\<open>min\<close> of them, and IEEE comparison of finite doubles is the comparison of
  their rational values, so a finite double is modelled by its value; the two infinities
  and NaN are separate constructors. Every comparison with NaN is false.
\<close>

datatype pyfloat = Finite rat | PInf | NInf | NaN

fun fl_lt :: "pyfloat \<Rightarrow> pyfloat \<Rightarrow> bool" where
  "fl_lt NaN _ = False"
| "fl_lt _ NaN = False"
| "fl_lt (Finite a) (Finite b) = (a < b)"
| "fl_lt NInf NInf = False"
| "fl_lt NInf _ = True"
| "fl_lt _ NInf = False"
| "fl_lt PInf _ = False"
| "fl_lt _ PInf = True"

fun fl_le :: "pyfloat \<Rightarrow> pyfloat \<Rightarrow> bool" where
  "fl_le NaN _ = False"
| "fl_le _ NaN = False"
| "fl_le (Finite a) (Finite b) = (a \<le> b)"
| "fl_le NInf _ = True"
| "fl_le _ PInf = True"
| "fl_le PInf _ = False"
| "fl_le _ NInf = False"

text \<open>
  The builtin \<open>max(a, b)\<close> keeps \<open>a\<close> unless \<open>b > a\<close>; \<open>min(a, b)\<close> keeps \<open>a\<close>
  unless \<open>b < a\<close>.
\<close>

definition py_max :: "pyfloat \<Rightarrow> pyfloat \<Rightarrow> pyfloat" where
  "py_max a b = (if fl_lt a b then b else a)"

definition py_min :: "pyfloat \<Rightarrow> pyfloat \<Rightarrow> pyfloat" where
  "py_min a b = (if fl_lt b a then b else a)"

text \<open>
  A naive \<open>datetime\<close> is the number of microseconds since 0001-01-01 00:00:00, a
  \<open>timedelta\<close> a number of microseconds. Both are bounded; arithmetic that leaves the
  range raises \<open>OverflowError\<close>.
\<close>

type_synonym datetime = int
type_synonym timedelta = int

datatype py_error = ValueError | OverflowError | OSError | RuntimeError | EOFError

definition us_per_day :: int where
  "us_per_day = 86400000000"

definition datetime_max :: datetime where
  "datetime_max = 3652059 * us_per_day - 1"

definition timedelta_min :: timedelta where
  "timedelta_min = - 999999999 * us_per_day"

definition timedelta_max :: timedelta where
  "timedelta_max = 1000000000 * us_per_day - 1"

text \<open>\<open>timedelta(days=d, hours=h, minutes=m, seconds=s)\<close> on integers.\<close>

definition mk_timedelta :: "int \<Rightarrow> int \<Rightarrow> int \<Rightarrow> int \<Rightarrow> py_error + timedelta" where
  "mk_timedelta days hours minutes seconds =
     (let us = (((days * 24 + hours) * 60 + minutes) * 60 + seconds) * 1000000
      in if timedelta_min \<le> us \<and> us \<le> timedelta_max then Inr us else Inl OverflowError)"

text \<open>\<open>datetime + timedelta\<close>.\<close>

definition dt_add :: "datetime \<Rightarrow> timedelta \<Rightarrow> py_error + datetime" where
  "dt_add t d = (if 0 \<le> t + d \<and> t + d \<le> datetime_max then Inr (t + d) else Inl OverflowError)"

text \<open>
  The library functions the program calls on text are parameters of the model:
  \<open>datetime.strptime(s, fmt)\<close>, \<open>float(s)\<close> and \<open>int(s)\<close> (\<open>None\<close> when they raise
  \<open>ValueError\<close>), \<open>str.strip\<close> and \<open>str.lower\<close>.
\<close>

record builtins =
  py_strptime :: "string \<Rightarrow> string \<Rightarrow> datetime option"
  py_float :: "string \<Rightarrow> pyfloat option"
  py_int :: "string \<Rightarrow> int option"
  py_strip :: "string \<Rightarrow> string"
  py_lower :: "string \<Rightarrow> string"

section \<open>Data cleaning and validation\<close>

type_synonym clean_record = "string \<times> pyfloat \<times> int"

definition tick_format :: string where
  "tick_format = ''%Y-%m-%d %H:%M:%S.%f''"

definition IncorrectColumnCount :: string where
  "IncorrectColumnCount = ''Incorrect number of columns''"

definition MissingTimestamp :: string where
  "MissingTimestamp = ''Missing timestamp''"

definition InvalidTimestampFormat :: string where
  "InvalidTimestampFormat = ''Invalid timestamp format''"

definition DuplicateTimestamp :: string where
  "DuplicateTimestamp = ''Duplicate timestamp''"

definition InvalidPriceValue :: string where
  "InvalidPriceValue = ''Invalid price value''"

definition NonPositivePrice :: string where
  "NonPositivePrice = ''Price must be positive''"

definition PriceTooLow :: string where
  "PriceTooLow = ''Price too low (below 100)''"

definition InvalidSizeValue :: string where
  "InvalidSizeValue = ''Invalid size value''"

definition NegativeSize :: string where
  "NegativeSize = ''Size must be non-negative''"

definition rejection_reasons :: "string list" where
  "rejection_reasons =
     [IncorrectColumnCount, MissingTimestamp, InvalidTimestampFormat, DuplicateTimestamp,
      InvalidPriceValue, NonPositivePrice, PriceTooLow, InvalidSizeValue, NegativeSize]"

text \<open>
  \<open>clean_and_validate_row(row, unique_timestamps)\<close> returns the pair
  \<open>(cleaned_row, errors)\<close>; the set it mutates is returned beside it.
\<close>

definition clean_and_validate_row ::
  "builtins \<Rightarrow> string list \<Rightarrow> string set \<Rightarrow> (clean_record option \<times> string list) \<times> string set"
where
  "clean_and_validate_row L row unique_timestamps =
     (if length row \<noteq> 3 then ((None, [IncorrectColumnCount]), unique_timestamps)
      else
        let timestamp = row ! 0; price = row ! 1; size' = row ! 2 in
        if timestamp = [] then ((None, [MissingTimestamp]), unique_timestamps)
        else
          (case py_strptime L timestamp tick_format of
             None \<Rightarrow> ((None, [InvalidTimestampFormat]), unique_timestamps)
           | Some _ \<Rightarrow>
               if timestamp \<in> unique_timestamps
               then ((None, [DuplicateTimestamp]), unique_timestamps)
               else
                 let unique_timestamps = insert timestamp unique_timestamps in
                 (case py_float L price of
                    None \<Rightarrow> ((None, [InvalidPriceValue]), unique_timestamps)
                  | Some price \<Rightarrow>
                      if fl_le price (Finite 0)
                      then ((None, [NonPositivePrice]), unique_timestamps)
                      else if fl_lt price (Finite 100)
                      then ((None, [PriceTooLow]), unique_timestamps)
                      else
                        (case py_int L size' of
                           None \<Rightarrow> ((None, [InvalidSizeValue]), unique_timestamps)
                         | Some size' \<Rightarrow>
                             if size' < 0
                             then ((None, [NegativeSize]), unique_timestamps)
                             else ((Some (timestamp, price, size'), []), unique_timestamps)))))"


section \<open>Data loading\<close>

text \<open>
  The file system is a map from a path to the rows \<open>csv.reader\<close> yields for the file
  there, header row included. \<open>read_tick_data\<close> drops the header; \<open>next\<close> on a file
  without any row raises \<open>StopIteration\<close> inside the generator, which surfaces as
  \<open>RuntimeError\<close>.
\<close>

type_synonym filesystem = "string \<rightharpoonup> string list list"

definition read_tick_data :: "filesystem \<Rightarrow> string \<Rightarrow> py_error + string list list" where
  "read_tick_data fs file_path =
     (case fs file_path of
        None \<Rightarrow> Inl OSError
      | Some [] \<Rightarrow> Inl RuntimeError
      | Some (header # rows) \<Rightarrow> Inr rows)"

type_synonym row_result = "clean_record option \<times> string list \<times> string list"

text \<open>The loop of \<open>process_file\<close> over the rows, threading \<open>unique_timestamps\<close>.\<close>

fun process_rows :: "builtins \<Rightarrow> string list list \<Rightarrow> string set \<Rightarrow> row_result list" where
  "process_rows L [] unique_timestamps = []"
| "process_rows L (row # rows) unique_timestamps =
     (case clean_and_validate_row L row unique_timestamps of
        ((cleaned_row, errors), unique_timestamps) \<Rightarrow>
          (cleaned_row, errors, row) # process_rows L rows unique_timestamps)"

definition process_file :: "builtins \<Rightarrow> filesystem \<Rightarrow> string \<Rightarrow> py_error + row_result list" where
  "process_file L fs file_path =
     (case read_tick_data fs file_path of
        Inl e \<Rightarrow> Inl e
      | Inr rows \<Rightarrow> Inr (process_rows L rows {}))"

text \<open>The contents of \<open>unique_timestamps\<close> after the loop has run over some rows.\<close>

fun seen_after :: "builtins \<Rightarrow> string list list \<Rightarrow> string set \<Rightarrow> string set" where
  "seen_after L [] unique_timestamps = unique_timestamps"
| "seen_after L (row # rows) unique_timestamps =
     seen_after L rows (snd (clean_and_validate_row L row unique_timestamps))"

section \<open>Data transformation\<close>

text \<open>\<open>str.split(c)\<close> for a one-character separator.\<close>

fun split_char :: "char \<Rightarrow> string \<Rightarrow> string list" where
  "split_char c [] = [[]]"
| "split_char c (x # xs) =
     (if x = c then [] # split_char c xs
      else (x # hd (split_char c xs)) # tl (split_char c xs))"

text \<open>
  One block of \<open>parse_interval\<close>: when the unit letter occurs in the string, the text
  before its first occurrence is converted by \<open>int\<close> and the string is replaced by
  \<open>parts[1]\<close>; otherwise the component stays 0 and the string is unchanged.
\<close>

definition interval_component :: "builtins \<Rightarrow> char \<Rightarrow> string \<Rightarrow> py_error + (int \<times> string)" where
  "interval_component L u interval_str =
     (if u \<in> set interval_str then
        let parts = split_char u interval_str in
        (case py_int L (parts ! 0) of
           None \<Rightarrow> Inl ValueError
         | Some n \<Rightarrow> Inr (n, if length parts > 1 then parts ! 1 else []))
      else Inr (0, interval_str))"

definition parse_interval :: "builtins \<Rightarrow> string \<Rightarrow> py_error + timedelta" where
  "parse_interval L interval_str =
     (case interval_component L CHR ''d'' interval_str of
        Inl e \<Rightarrow> Inl e
      | Inr (days, interval_str) \<Rightarrow>
     (case interval_component L CHR ''h'' interval_str of
        Inl e \<Rightarrow> Inl e
      | Inr (hours, interval_str) \<Rightarrow>
     (case interval_component L CHR ''m'' interval_str of
        Inl e \<Rightarrow> Inl e
      | Inr (minutes, interval_str) \<Rightarrow>
     (case interval_component L CHR ''s'' interval_str of
        Inl e \<Rightarrow> Inl e
      | Inr (seconds, _) \<Rightarrow> mk_timedelta days hours minutes seconds))))"

text \<open>
  One bar under construction, as the dictionary \<open>current_ohlcv\<close>. The table
  \<open>ohlcv_data\<close> is a dictionary in insertion order: assigning to a key that is present
  replaces the value in place, assigning to a new key appends. Its keys are the values
  of \<open>interval_start\<close>, which starts as \<open>None\<close>.
\<close>

record ohlcv =
  "open" :: "pyfloat option"
  high :: pyfloat
  low :: pyfloat
  close :: "pyfloat option"
  volume :: int

definition new_ohlcv :: ohlcv where
  "new_ohlcv = \<lparr>open = None, high = NInf, low = PInf, close = None, volume = 0\<rparr>"

type_synonym interval_table = "(datetime option \<times> ohlcv) list"

record agg_state =
  ohlcv_data :: interval_table
  interval_start :: "datetime option"
  current_ohlcv :: ohlcv

definition init_state :: agg_state where
  "init_state = \<lparr>ohlcv_data = [], interval_start = None, current_ohlcv = new_ohlcv\<rparr>"

text \<open>The five updates of the open bar (lines 137 to 142).\<close>

definition update_ohlcv :: "pyfloat \<Rightarrow> int \<Rightarrow> ohlcv \<Rightarrow> ohlcv" where
  "update_ohlcv price size' cur =
     \<lparr>open = (if open cur = None then Some price else open cur),
      high = py_max (high cur) price,
      low = py_min (low cur) price,
      close = Some price,
      volume = volume cur + size'\<rparr>"

text \<open>The body of the loop of \<open>aggregate_ohlcv\<close> for one record.\<close>

definition ohlcv_step ::
  "builtins \<Rightarrow> timedelta \<Rightarrow> datetime \<Rightarrow> datetime \<Rightarrow> clean_record \<Rightarrow> agg_state \<Rightarrow> py_error + agg_state"
where
  "ohlcv_step L interval start_time end_time r st =
     (case r of (timestamp, price, size') \<Rightarrow>
      (case py_strptime L timestamp tick_format of
         None \<Rightarrow> Inl ValueError
       | Some timestamp \<Rightarrow>
           if timestamp < start_time \<or> timestamp > end_time then Inr st
           else
             let istart = (case interval_start st of None \<Rightarrow> timestamp | Some s \<Rightarrow> s) in
             (case dt_add istart interval of
                Inl e \<Rightarrow> Inl e
              | Inr bound \<Rightarrow>
                  if timestamp \<ge> bound then
                    Inr \<lparr>ohlcv_data = AList.update (Some istart) (current_ohlcv st) (ohlcv_data st),
                         interval_start = Some timestamp,
                         current_ohlcv = update_ohlcv price size' new_ohlcv\<rparr>
                  else
                    Inr \<lparr>ohlcv_data = ohlcv_data st,
                         interval_start = Some istart,
                         current_ohlcv = update_ohlcv price size' (current_ohlcv st)\<rparr>)))"

fun ohlcv_loop ::
  "builtins \<Rightarrow> timedelta \<Rightarrow> datetime \<Rightarrow> datetime \<Rightarrow> clean_record list \<Rightarrow> agg_state \<Rightarrow> py_error + agg_state"
where
  "ohlcv_loop L interval start_time end_time [] st = Inr st"
| "ohlcv_loop L interval start_time end_time (r # data) st =
     (case ohlcv_step L interval start_time end_time r st of
        Inl e \<Rightarrow> Inl e
      | Inr st \<Rightarrow> ohlcv_loop L interval start_time end_time data st)"

text \<open>Saving the last interval after the loop (lines 175 and 176).\<close>

definition seal_last :: "agg_state \<Rightarrow> interval_table" where
  "seal_last st =
     (if open (current_ohlcv st) \<noteq> None
      then AList.update (interval_start st) (current_ohlcv st) (ohlcv_data st)
      else ohlcv_data st)"

text \<open>
  \<open>aggregate_ohlcv\<close> sorts its argument in place by the timestamp text (a stable sort)
  and returns the table; the model returns the sorted list beside the result.
\<close>

definition aggregate_ohlcv ::
  "builtins \<Rightarrow> clean_record list \<Rightarrow> timedelta \<Rightarrow> datetime \<Rightarrow> datetime
     \<Rightarrow> (py_error + interval_table) \<times> clean_record list"
where
  "aggregate_ohlcv L data interval start_time end_time =
     (let data = sort_key fst data in
      (case ohlcv_loop L interval start_time end_time data init_state of
         Inl e \<Rightarrow> (Inl e, data)
       | Inr st \<Rightarrow> (Inr (seal_last st), data)))"

section \<open>User input\<close>

text \<open>
  The lines typed by the user are a list; \<open>input\<close> on the empty list raises
  \<open>EOFError\<close>. Each function returns the lines left unread beside its result.
\<close>

fun get_interval_input :: "builtins \<Rightarrow> string list \<Rightarrow> (py_error + timedelta) \<times> string list" where
  "get_interval_input L [] = (Inl EOFError, [])"
| "get_interval_input L (line # inputs) =
     (let interval_str = py_lower L (py_strip L line) in
      (case parse_interval L interval_str of
         Inl e \<Rightarrow> if e = ValueError then get_interval_input L inputs else (Inl e, inputs)
       | Inr interval \<Rightarrow>
           if interval = 0 then get_interval_input L inputs else (Inr interval, inputs)))"

definition prompt_format :: string where
  "prompt_format = ''%Y-%m-%d %H:%M:%S''"

fun get_datetime_input :: "builtins \<Rightarrow> string list \<Rightarrow> (py_error + datetime) \<times> string list" where
  "get_datetime_input L [] = (Inl EOFError, [])"
| "get_datetime_input L (line # inputs) =
     (case py_strptime L (py_strip L line) prompt_format of
        None \<Rightarrow> get_datetime_input L inputs
      | Some t \<Rightarrow> (Inr t, inputs))"


section \<open>The main function\<close>

text \<open>
  The fold of \<open>main\<close> over the per-file results: the three counters, the error log and
  the cleaned records, in the order of the files and of the rows in each file.
\<close>

record tally =
  total_rows :: nat
  valid_rows :: nat
  invalid_rows :: nat
  error_log :: "(string list \<times> string list) list"
  cleaned_data :: "clean_record list"

definition tally_row :: "row_result \<Rightarrow> tally \<Rightarrow> tally" where
  "tally_row r t =
     (case r of (cleaned_row, errors, original_row) \<Rightarrow>
        (case cleaned_row of
           Some c \<Rightarrow>
             t\<lparr>total_rows := total_rows t + 1, valid_rows := valid_rows t + 1,
               cleaned_data := cleaned_data t @ [c]\<rparr>
         | None \<Rightarrow>
             t\<lparr>total_rows := total_rows t + 1, invalid_rows := invalid_rows t + 1,
               error_log := error_log t @ [(original_row, errors)]\<rparr>))"

definition tally_all :: "row_result list list \<Rightarrow> tally" where
  "tally_all all_results =
     fold tally_row (concat all_results)
       \<lparr>total_rows = 0, valid_rows = 0, invalid_rows = 0, error_log = [], cleaned_data = []\<rparr>"

text \<open>
  \<open>main\<close> from the value \<open>all_results\<close> that \<open>pool.map(process_file, csv_files)\<close>
  returned, and the lines the user types. It returns the three counts it prints and the
  table it writes; no table is written when the start time is not before the end time.
\<close>

definition main ::
  "builtins \<Rightarrow> row_result list list \<Rightarrow> string list
     \<Rightarrow> py_error + (nat \<times> nat \<times> nat) \<times> interval_table option"
where
  "main L all_results inputs =
     (let t = tally_all all_results;
          counts = (total_rows t, valid_rows t, invalid_rows t) in
      (case get_interval_input L inputs of
         (Inl e, _) \<Rightarrow> Inl e
       | (Inr interval, inputs) \<Rightarrow>
      (case get_datetime_input L inputs of
         (Inl e, _) \<Rightarrow> Inl e
       | (Inr start_time, inputs) \<Rightarrow>
      (case get_datetime_input L inputs of
         (Inl e, _) \<Rightarrow> Inl e
       | (Inr end_time, inputs) \<Rightarrow>
           if start_time \<ge> end_time then Inr (counts, None)
           else
             (case fst (aggregate_ohlcv L (cleaned_data t) interval start_time end_time) of
                Inl e \<Rightarrow> Inl e
              | Inr table \<Rightarrow> Inr (counts, Some table))))))"

section \<open>The validation checks in their fixed order\<close>

text \<open>
  The nine checks of the validator, each as the reason it reports paired with the
  condition under which it fails, in the order in which the function makes them. A
  condition is only looked at when every earlier check has passed.
\<close>

definition check_failures :: "builtins \<Rightarrow> string list \<Rightarrow> string set \<Rightarrow> (string \<times> bool) list" where
  "check_failures L row unique_timestamps =
     [(IncorrectColumnCount, length row \<noteq> 3),
      (MissingTimestamp, row ! 0 = []),
      (InvalidTimestampFormat, py_strptime L (row ! 0) tick_format = None),
      (DuplicateTimestamp, row ! 0 \<in> unique_timestamps),
      (InvalidPriceValue, py_float L (row ! 1) = None),
      (NonPositivePrice,
         (case py_float L (row ! 1) of None \<Rightarrow> False | Some price \<Rightarrow> fl_le price (Finite 0))),
      (PriceTooLow,
         (case py_float L (row ! 1) of None \<Rightarrow> False | Some price \<Rightarrow> fl_lt price (Finite 100))),
      (InvalidSizeValue, py_int L (row ! 2) = None),
      (NegativeSize, (case py_int L (row ! 2) of None \<Rightarrow> False | Some n \<Rightarrow> n < 0))]"

definition first_failure :: "builtins \<Rightarrow> string list \<Rightarrow> string set \<Rightarrow> string option" where
  "first_failure L row unique_timestamps =
     map_option fst (find snd (check_failures L row unique_timestamps))"

section \<open>Concrete values for the scenarios\<close>

text \<open>
  \<open>datetime_of y m d H M S us\<close> is the value of \<open>datetime(y, m, d, H, M, S, us)\<close> for a
  valid date: the days before the year and the month in the proleptic Gregorian
  calendar, then the time of day.
\<close>

definition is_leap :: "int \<Rightarrow> bool" where
  "is_leap y = (y mod 4 = 0 \<and> (y mod 100 \<noteq> 0 \<or> y mod 400 = 0))"

definition days_before_year :: "int \<Rightarrow> int" where
  "days_before_year y = (y - 1) * 365 + (y - 1) div 4 - (y - 1) div 100 + (y - 1) div 400"

definition days_before_month :: "int \<Rightarrow> int \<Rightarrow> int" where
  "days_before_month y m =
     [0, 31, 59, 90, 120, 151, 181, 212, 243, 273, 304, 334] ! nat (m - 1)
       + (if m > 2 \<and> is_leap y then 1 else 0)"

definition datetime_of :: "int \<Rightarrow> int \<Rightarrow> int \<Rightarrow> int \<Rightarrow> int \<Rightarrow> int \<Rightarrow> int \<Rightarrow> datetime" where
  "datetime_of y m d H M S us =
     ((((days_before_year y + days_before_month y m + d - 1) * 24 + H) * 60 + M) * 60 + S)
        * 1000000 + us"

text \<open>
  What the library functions return on the literals of the scenarios; on every other
  text the table raises \<open>ValueError\<close>. None of the literals carries surrounding white
  space or an upper-case letter, so \<open>strip\<close> and \<open>lower\<close> leave them as they are.
  \<open>strptime\<close> takes an hour written with one digit: \<open>%H\<close> does not ask for the
  leading zero.
\<close>

definition scenario_strptime :: "string \<Rightarrow> string \<Rightarrow> datetime option" where
  "scenario_strptime s fmt =
     (if fmt = tick_format then
        map_of
          [(''2024-01-01 09:30:00.000000'', datetime_of 2024 1 1 9 30 0 0),
           (''2024-01-01 09:30:05.000000'', datetime_of 2024 1 1 9 30 5 0),
           (''2024-01-01 09:30:50.000000'', datetime_of 2024 1 1 9 30 50 0),
           (''2024-01-01 09:31:10.000000'', datetime_of 2024 1 1 9 31 10 0),
           (''2024-01-01 09:31:20.000000'', datetime_of 2024 1 1 9 31 20 0),
           (''2024-01-01 9:30:05.000000'', datetime_of 2024 1 1 9 30 5 0),
           (''2024-01-01 09:32:00.000000'', datetime_of 2024 1 1 9 32 0 0),
           (''2024-01-01 09:32:00.000001'', datetime_of 2024 1 1 9 32 0 1),
           (''2024-01-01 09:29:59.999999'', datetime_of 2024 1 1 9 29 59 999999)] s
      else if fmt = prompt_format then
        map_of
          [(''2024-01-01 09:30:00'', datetime_of 2024 1 1 9 30 0 0),
           (''2024-01-01 09:32:00'', datetime_of 2024 1 1 9 32 0 0)] s
      else None)"

definition scenario_float :: "string \<Rightarrow> pyfloat option" where
  "scenario_float =
     map_of
       [(''150.25'', Finite (601 / 4)), (''151.00'', Finite 151), (''100.0'', Finite 100),
        (''100'', Finite 100), (''105'', Finite 105), (''102'', Finite 102),
        (''50'', Finite 50), (''0'', Finite 0), (''-1'', Finite (- 1)),
        (''99999'', Finite 99999),
        (''nan'', NaN), (''inf'', PInf)]"

definition scenario_int :: "string \<Rightarrow> int option" where
  "scenario_int =
     map_of
       [(''0'', 0), (''1'', 1), (''2'', 2), (''3'', 3), (''5'', 5), (''10'', 10),
        (''30'', 30), (''-1'', - 1), (''-5'', - 5)]"

definition scenario_builtins :: builtins where
  "scenario_builtins =
     \<lparr>py_strptime = scenario_strptime, py_float = scenario_float, py_int = scenario_int,
      py_strip = (\<lambda>s. s), py_lower = (\<lambda>s. s)\<rparr>"

text \<open>Files for the scenarios: the header row, then the rows of the scenario.\<close>

definition header_row :: "string list" where
  "header_row = [''Timestamp'', ''Price'', ''Size'']"

definition scenario_files :: filesystem where
  "scenario_files =
     map_of
       [(''data/ctg_tick_same.csv'',
           [header_row,
            [''2024-01-01 09:30:00.000000'', ''150.25'', ''10''],
            [''2024-01-01 09:30:00.000000'', ''151.00'', ''5'']]),
        (''data/ctg_tick_one.csv'',
           [header_row, [''2024-01-01 09:30:00.000000'', ''150.25'', ''10'']]),
        (''data/ctg_tick_two.csv'',
           [header_row, [''2024-01-01 09:30:00.000000'', ''151.00'', ''5'']]),
        (''data/ctg_tick_bad_price.csv'',
           [header_row,
            [''2024-01-01 09:30:00.000000'', ''abc'', ''10''],
            [''2024-01-01 09:30:00.000000'', ''150.25'', ''10'']]),
        (''data/ctg_tick_nan.csv'',
           [header_row, [''2024-01-01 09:30:05.000000'', ''nan'', ''1'']]),
        (''data/ctg_tick_unpadded.csv'',
           [header_row,
            [''2024-01-01 9:30:05.000000'', ''99999'', ''2''],
            [''2024-01-01 09:31:20.000000'', ''100'', ''1'']])]"

section \<open>Notions for stating the properties of the aggregation\<close>

text \<open>A record whose timestamp parses to a time inside the closed window.\<close>

definition in_window :: "builtins \<Rightarrow> datetime \<Rightarrow> datetime \<Rightarrow> clean_record \<Rightarrow> bool" where
  "in_window L start_time end_time r =
     (case py_strptime L (fst r) tick_format of
        None \<Rightarrow> False
      | Some t \<Rightarrow> start_time \<le> t \<and> t \<le> end_time)"

text \<open>The time a record's timestamp parses to.\<close>

definition rec_time :: "builtins \<Rightarrow> clean_record \<Rightarrow> datetime" where
  "rec_time L r = the (py_strptime L (fst r) tick_format)"

text \<open>The bar that the five updates build from a run of records, first to last.\<close>

definition bar_of :: "clean_record list \<Rightarrow> ohlcv" where
  "bar_of g = fold (\<lambda>r. update_ohlcv (fst (snd r)) (snd (snd r))) g new_ohlcv"

text \<open>
  The records of the interval that starts at \<open>t\<close>: those inside the window whose time
  is at least \<open>t\<close> and less than \<open>t + interval\<close>, in the order in which the loop meets
  them (the list sorted by timestamp text).
\<close>

definition interval_records ::
  "builtins \<Rightarrow> clean_record list \<Rightarrow> timedelta \<Rightarrow> datetime \<Rightarrow> datetime \<Rightarrow> datetime
     \<Rightarrow> clean_record list"
where
  "interval_records L data interval start_time end_time t =
     filter (\<lambda>r. in_window L start_time end_time r
                 \<and> t \<le> rec_time L r \<and> rec_time L r < t + interval)
       (sort_key fst data)"

text \<open>
  The invariant of the loop after the records \<open>done\<close> (all inside the window, in
  nondecreasing time): the current bar summarises the records from the interval start
  on, every record lies before the end of the current interval, and every bar in the
  table summarises the records of its own interval, which ended before the current one
  began.
\<close>

definition loop_inv :: "builtins \<Rightarrow> timedelta \<Rightarrow> clean_record list \<Rightarrow> agg_state \<Rightarrow> bool" where
  "loop_inv L interval done st =
     (if done = [] then st = init_state
      else
        (\<exists>s. interval_start st = Some s
            \<and> s \<in> rec_time L ` set done
            \<and> (\<forall>r \<in> set done. rec_time L r < s + interval)
            \<and> current_ohlcv st = bar_of (filter (\<lambda>r. s \<le> rec_time L r) done)
            \<and> (\<forall>(k, bar) \<in> set (ohlcv_data st).
                  \<exists>t. k = Some t \<and> t + interval \<le> s \<and> t \<in> rec_time L ` set done
                      \<and> bar = bar_of (filter (\<lambda>r. t \<le> rec_time L r
                                                  \<and> rec_time L r < t + interval) done))))"


text \<open>
  The runs into which the loop cuts a list of records: a run starts at a record and
  takes the records that follow for as long as their time is before the time of its
  first record plus the interval; the next run starts at the first record that is not.
\<close>

function groups :: "builtins \<Rightarrow> timedelta \<Rightarrow> clean_record list \<Rightarrow> clean_record list list" where
  "groups L interval [] = []"
| "groups L interval (r # rs) =
     (r # takeWhile (\<lambda>x. rec_time L x < rec_time L r + interval) rs)
       # groups L interval (dropWhile (\<lambda>x. rec_time L x < rec_time L r + interval) rs)"
  by pat_completeness auto
termination
  by (relation "measure (\<lambda>(L, interval, rs). length rs)")
     (auto simp: length_dropWhile_le less_Suc_eq_le)





section \<open>The validator\<close>

lemmas reason_defs =
  IncorrectColumnCount_def MissingTimestamp_def InvalidTimestampFormat_def
  DuplicateTimestamp_def InvalidPriceValue_def NonPositivePrice_def PriceTooLow_def
  InvalidSizeValue_def NegativeSize_def

lemma first_failure_reason:
  assumes "first_failure L row uts = Some r"
  shows "r \<in> set rejection_reasons"
proof -
  from assms obtain p where p: "find snd (check_failures L row uts) = Some p" and r: "r = fst p"
    by (auto simp: first_failure_def)
  from p have "p \<in> set (check_failures L row uts)"
    by (auto simp: find_Some_iff)
  then have "fst p \<in> set (map fst (check_failures L row uts))"
    by simp
  also have "map fst (check_failures L row uts) = rejection_reasons"
    by (simp add: check_failures_def rejection_reasons_def)
  finally show ?thesis using r by simp
qed

lemma fst_clean_and_validate_row:
  "fst (clean_and_validate_row L row uts) =
     (case first_failure L row uts of
        Some reason \<Rightarrow> (None, [reason])
      | None \<Rightarrow> (Some (row ! 0, the (py_float L (row ! 1)), the (py_int L (row ! 2))), []))"
  by (simp add: clean_and_validate_row_def first_failure_def check_failures_def Let_def
      split: option.splits)

lemma snd_clean_and_validate_row:
  "snd (clean_and_validate_row L row uts) =
     (if length row = 3 \<and> row ! 0 \<noteq> [] \<and> py_strptime L (row ! 0) tick_format \<noteq> None
      then insert (row ! 0) uts else uts)"
  by (auto simp add: clean_and_validate_row_def Let_def split: option.splits)

text \<open>
  C3. For every row and every duplicate set, the validator returns what the first
  failing check of the fixed list dictates: \<open>None\<close> with the one-element list holding
  that check's reason, or, when no check fails, the cleaned record with the empty error
  list. Hence the result is either a record with no error, or no record with exactly one
  of the nine reasons; never a record together with an error, never two reasons.
\<close>

theorem validator_record_or_single_reason:
  "fst (clean_and_validate_row L row uts) =
     (case first_failure L row uts of
        Some reason \<Rightarrow> (None, [reason])
      | None \<Rightarrow> (Some (row ! 0, the (py_float L (row ! 1)), the (py_int L (row ! 2))), []))
   \<and> ((\<exists>c. fst (clean_and_validate_row L row uts) = (Some c, []))
        \<or> (\<exists>e. e \<in> set rejection_reasons
               \<and> fst (clean_and_validate_row L row uts) = (None, [e])))"
proof (cases "first_failure L row uts")
  case None
  then show ?thesis by (simp add: fst_clean_and_validate_row)
next
  case (Some r)
  then show ?thesis
    using first_failure_reason[OF Some] by (simp add: fst_clean_and_validate_row)
qed

lemma scenario_simps:
  "py_strptime scenario_builtins = scenario_strptime"
  "py_float scenario_builtins = scenario_float"
  "py_int scenario_builtins = scenario_int"
  "py_strip scenario_builtins = (\<lambda>s. s)"
  "py_lower scenario_builtins = (\<lambda>s. s)"
  by (simp_all add: scenario_builtins_def)

theorem validator_record_or_single_reason_witness:
  "fst (clean_and_validate_row scenario_builtins
          [''2024-01-01 09:30:00.000000'', ''50'', ''10''] {}) = (None, [PriceTooLow])
   \<and> fst (clean_and_validate_row scenario_builtins
          [''2024-01-01 09:30:00.000000'', ''150.25'', ''10''] {})
       = (Some (''2024-01-01 09:30:00.000000'', Finite (601 / 4), 10), [])"
  using validator_record_or_single_reason
          [of scenario_builtins "[''2024-01-01 09:30:00.000000'', ''50'', ''10'']" "{}"]
        validator_record_or_single_reason
          [of scenario_builtins "[''2024-01-01 09:30:00.000000'', ''150.25'', ''10'']" "{}"]
  by (simp add: first_failure_def check_failures_def scenario_simps scenario_strptime_def
      scenario_float_def scenario_int_def tick_format_def)

lemma fl_lt_not_le: "fl_lt a b \<Longrightarrow> \<not> fl_le b a"
  by (cases a; cases b) auto

lemma not_fl_le_lt: "\<not> fl_le a b \<Longrightarrow> a \<noteq> NaN \<Longrightarrow> b \<noteq> NaN \<Longrightarrow> fl_lt b a"
  by (cases a; cases b) auto

lemma fl_lt_not_NaN: "fl_lt a b \<Longrightarrow> a \<noteq> NaN \<and> b \<noteq> NaN"
  by (cases a; cases b) auto

text \<open>
  C7. The validator reports \<open>PriceTooLow\<close> exactly for a row that passes the column,
  timestamp and duplicate checks and whose price text converts to a float strictly above
  0 and strictly below 100. A row that passes these checks with the price 100.0 and a
  size that converts to a non-negative integer is accepted.
\<close>

theorem price_floor_rejects_exactly_below_100:
  "((snd (fst (clean_and_validate_row L row uts)) = [PriceTooLow]) =
      (length row = 3 \<and> row ! 0 \<noteq> [] \<and> py_strptime L (row ! 0) tick_format \<noteq> None
       \<and> row ! 0 \<notin> uts
       \<and> (\<exists>price. py_float L (row ! 1) = Some price
             \<and> fl_lt (Finite 0) price \<and> fl_lt price (Finite 100))))
   \<and> (length row = 3 \<and> row ! 0 \<noteq> [] \<and> py_strptime L (row ! 0) tick_format \<noteq> None
       \<and> row ! 0 \<notin> uts \<and> py_float L (row ! 1) = Some (Finite 100)
       \<and> py_int L (row ! 2) = Some n \<and> 0 \<le> n
       \<longrightarrow> fst (clean_and_validate_row L row uts) = (Some (row ! 0, Finite 100, n), []))"
proof
  show "(snd (fst (clean_and_validate_row L row uts)) = [PriceTooLow]) =
      (length row = 3 \<and> row ! 0 \<noteq> [] \<and> py_strptime L (row ! 0) tick_format \<noteq> None
       \<and> row ! 0 \<notin> uts
       \<and> (\<exists>price. py_float L (row ! 1) = Some price
             \<and> fl_lt (Finite 0) price \<and> fl_lt price (Finite 100)))"
    apply (simp add: clean_and_validate_row_def Let_def reason_defs split: option.splits)
    apply (auto dest: fl_lt_not_le fl_lt_not_NaN intro: not_fl_le_lt)
    done
  show "length row = 3 \<and> row ! 0 \<noteq> [] \<and> py_strptime L (row ! 0) tick_format \<noteq> None
       \<and> row ! 0 \<notin> uts \<and> py_float L (row ! 1) = Some (Finite 100)
       \<and> py_int L (row ! 2) = Some n \<and> 0 \<le> n
       \<longrightarrow> fst (clean_and_validate_row L row uts) = (Some (row ! 0, Finite 100, n), [])"
    by (auto simp add: clean_and_validate_row_def Let_def)
qed

theorem price_floor_rejects_exactly_below_100_witness:
  "fst (clean_and_validate_row scenario_builtins
          [''2024-01-01 09:30:00.000000'', ''100.0'', ''10''] {})
     = (Some (''2024-01-01 09:30:00.000000'', Finite 100, 10), [])
   \<and> snd (fst (clean_and_validate_row scenario_builtins
          [''2024-01-01 09:30:00.000000'', ''50'', ''10''] {})) = [PriceTooLow]"
  using price_floor_rejects_exactly_below_100
          [of scenario_builtins "[''2024-01-01 09:30:00.000000'', ''100.0'', ''10'']" "{}" 10]
        price_floor_rejects_exactly_below_100
          [of scenario_builtins "[''2024-01-01 09:30:00.000000'', ''50'', ''10'']" "{}" 10]
  by (simp add: scenario_simps scenario_strptime_def scenario_float_def scenario_int_def
      tick_format_def)

section \<open>One file\<close>

lemma process_rows_append:
  "process_rows L (xs @ ys) S = process_rows L xs S @ process_rows L ys (seen_after L xs S)"
  by (induction xs arbitrary: S) (auto split: prod.splits)

lemma length_process_rows [simp]: "length (process_rows L rows S) = length rows"
  by (induction rows arbitrary: S) (auto split: prod.splits)

lemma seen_after_iff:
  "ts \<in> seen_after L rows S \<longleftrightarrow>
     ts \<in> S \<or> (\<exists>r \<in> set rows. length r = 3 \<and> r ! 0 = ts \<and> ts \<noteq> []
                   \<and> py_strptime L ts tick_format \<noteq> None)"
  by (induction rows arbitrary: S) (auto simp: snd_clean_and_validate_row)

lemma process_rows_nth:
  "process_rows L (pre @ row # post) S ! length pre =
     (fst (fst (clean_and_validate_row L row (seen_after L pre S))),
      snd (fst (clean_and_validate_row L row (seen_after L pre S))), row)"
  by (simp add: process_rows_append nth_append split: prod.splits)

lemma duplicate_rejected:
  "length row = 3 \<Longrightarrow> row ! 0 \<noteq> [] \<Longrightarrow> py_strptime L (row ! 0) tick_format \<noteq> None
   \<Longrightarrow> row ! 0 \<in> S \<Longrightarrow> fst (clean_and_validate_row L row S) = (None, [DuplicateTimestamp])"
  by (auto simp: clean_and_validate_row_def Let_def)

lemma accepted_iff:
  "fst (clean_and_validate_row L row S) = (Some c, errs) \<longleftrightarrow>
     errs = [] \<and> length row = 3 \<and> row ! 0 \<noteq> [] \<and> py_strptime L (row ! 0) tick_format \<noteq> None
     \<and> row ! 0 \<notin> S
     \<and> (\<exists>price n. py_float L (row ! 1) = Some price \<and> \<not> fl_le price (Finite 0)
           \<and> \<not> fl_lt price (Finite 100) \<and> py_int L (row ! 2) = Some n \<and> 0 \<le> n
           \<and> c = (row ! 0, price, n))"
  by (auto simp: clean_and_validate_row_def Let_def split: option.splits)

lemma accepted_fresh:
  "fst (clean_and_validate_row L row S) = (Some c, []) \<Longrightarrow> row ! 0 \<notin> S'
   \<Longrightarrow> fst (clean_and_validate_row L row S') = (Some c, [])"
  unfolding accepted_iff by simp

lemma process_file_rows:
  "fs file_path = Some (header # rows) \<Longrightarrow> process_file L fs file_path = Inr (process_rows L rows {})"
  by (simp add: process_file_def read_tick_data_def)

lemma later_row_duplicate:
  assumes row: "length row = 3" "row ! 0 \<noteq> []" "py_strptime L (row ! 0) tick_format \<noteq> None"
      and row': "length row' = 3" "row' ! 0 = row ! 0"
  shows "process_rows L (pre @ row # mid @ row' # post) S ! (length pre + length mid + 1)
           = (None, [DuplicateTimestamp], row')"
proof -
  have mem: "row' ! 0 \<in> seen_after L (pre @ row # mid) S"
    using row row' by (auto simp: seen_after_iff)
  have "process_rows L ((pre @ row # mid) @ row' # post) S ! length (pre @ row # mid)
          = (None, [DuplicateTimestamp], row')"
    unfolding process_rows_nth
    using duplicate_rejected[of row' L "seen_after L (pre @ row # mid) S"] mem row row'
    by simp
  then show ?thesis by simp
qed

lemma first_row_accepted:
  assumes "fst (clean_and_validate_row L row {}) = (Some c, [])"
      and "\<forall>r \<in> set pre. length r = 3 \<longrightarrow> r ! 0 \<noteq> row ! 0"
  shows "process_rows L (pre @ row # post) {} ! length pre = (Some c, [], row)"
proof -
  have "row ! 0 \<notin> seen_after L pre {}"
    using assms(2) by (auto simp: seen_after_iff)
  from accepted_fresh[OF assms(1) this] show ?thesis
    by (simp add: process_rows_nth)
qed

lemmas scenario_eval =
  scenario_simps scenario_strptime_def scenario_float_def scenario_int_def tick_format_def
  prompt_format_def

text \<open>
  C9. A row with three columns whose timestamp is non-empty and well formatted: when the
  timestamp is not yet in the duplicate set, the validator returns the set with the
  timestamp inserted, whatever the price and size columns hold, so also when the row is
  rejected for its price or size. In a file, every later three-column row with the same
  timestamp is therefore reported as \<open>DuplicateTimestamp\<close>.
\<close>

theorem timestamp_recorded_before_price_and_size_checks:
  assumes "length row = 3" and "row ! 0 \<noteq> []"
      and "py_strptime L (row ! 0) tick_format \<noteq> None"
  shows "(row ! 0 \<notin> uts \<longrightarrow> snd (clean_and_validate_row L row uts) = insert (row ! 0) uts)
       \<and> (length row' = 3 \<and> row' ! 0 = row ! 0
            \<and> fs file_path = Some (header # pre @ row # mid @ row' # post)
          \<longrightarrow> (\<exists>results. process_file L fs file_path = Inr results
                 \<and> length results = length pre + length mid + length post + 2
                 \<and> results ! (length pre + length mid + 1) = (None, [DuplicateTimestamp], row')))"
  using assms later_row_duplicate[OF assms, of row' pre mid post "{}"]
  by (auto simp: snd_clean_and_validate_row process_file_rows)

text \<open>
  The file of the witness holds a row with the price text \<open>abc\<close>, rejected as
  \<open>InvalidPriceValue\<close>, followed by a valid row with the same timestamp: the second is
  a duplicate although the file yields no cleaned record at all.
\<close>

theorem timestamp_recorded_before_price_and_size_checks_witness:
  "clean_and_validate_row scenario_builtins [''2024-01-01 09:30:00.000000'', ''abc'', ''10''] {}
     = ((None, [InvalidPriceValue]), {''2024-01-01 09:30:00.000000''})
   \<and> process_file scenario_builtins scenario_files ''data/ctg_tick_bad_price.csv''
     = Inr [(None, [InvalidPriceValue], [''2024-01-01 09:30:00.000000'', ''abc'', ''10'']),
            (None, [DuplicateTimestamp], [''2024-01-01 09:30:00.000000'', ''150.25'', ''10''])]"
  using timestamp_recorded_before_price_and_size_checks
    [of "[''2024-01-01 09:30:00.000000'', ''abc'', ''10'']" scenario_builtins "{}"
        "[''2024-01-01 09:30:00.000000'', ''150.25'', ''10'']"
        scenario_files "''data/ctg_tick_bad_price.csv''" header_row "[]" "[]" "[]"]
  by (simp add: scenario_eval scenario_files_def process_file_def read_tick_data_def
      clean_and_validate_row_def Let_def)

text \<open>
  C4. Two rows \<open>r1\<close> and \<open>r2\<close> that are valid on their own and carry the same
  timestamp. In one file, where no earlier row carries that timestamp, the first is
  accepted and the second is rejected with \<open>DuplicateTimestamp\<close>. In two files (each
  without an earlier row of that timestamp) both are accepted: \<open>process_file\<close> starts
  every file from the empty set.
\<close>

theorem duplicate_rejection_scoped_to_one_file:
  assumes r1: "fst (clean_and_validate_row L r1 {}) = (Some c1, [])"
      and r2: "fst (clean_and_validate_row L r2 {}) = (Some c2, [])"
      and same: "r1 ! 0 = r2 ! 0"
      and pre: "\<forall>r \<in> set pre. length r = 3 \<longrightarrow> r ! 0 \<noteq> r1 ! 0"
      and pre': "\<forall>r \<in> set pre'. length r = 3 \<longrightarrow> r ! 0 \<noteq> r2 ! 0"
  shows "(fs p = Some (header # pre @ r1 # mid @ r2 # post) \<longrightarrow>
            (\<exists>results. process_file L fs p = Inr results
               \<and> results ! length pre = (Some c1, [], r1)
               \<and> results ! (length pre + length mid + 1) = (None, [DuplicateTimestamp], r2)))
       \<and> (fs p = Some (header # pre @ r1 # post) \<and> fs p' = Some (header' # pre' @ r2 # post') \<longrightarrow>
            (\<exists>results results'. process_file L fs p = Inr results
               \<and> process_file L fs p' = Inr results'
               \<and> results ! length pre = (Some c1, [], r1)
               \<and> results' ! length pre' = (Some c2, [], r2)))"
proof -
  have v1: "length r1 = 3" "r1 ! 0 \<noteq> []" "py_strptime L (r1 ! 0) tick_format \<noteq> None"
    using r1 by (auto simp: accepted_iff)
  have v2: "length r2 = 3" "r2 ! 0 = r1 ! 0"
    using r2 same by (auto simp: accepted_iff)
  show ?thesis
    using first_row_accepted[OF r1 pre] first_row_accepted[OF r2 pre']
      later_row_duplicate[OF v1 v2, of pre mid post "{}"]
    by (auto simp: process_file_rows)
qed

theorem duplicate_rejection_scoped_to_one_file_witness:
  "process_file scenario_builtins scenario_files ''data/ctg_tick_same.csv''
     = Inr [(Some (''2024-01-01 09:30:00.000000'', Finite (601 / 4), 10), [],
               [''2024-01-01 09:30:00.000000'', ''150.25'', ''10'']),
            (None, [DuplicateTimestamp], [''2024-01-01 09:30:00.000000'', ''151.00'', ''5''])]
   \<and> process_file scenario_builtins scenario_files ''data/ctg_tick_one.csv''
     = Inr [(Some (''2024-01-01 09:30:00.000000'', Finite (601 / 4), 10), [],
               [''2024-01-01 09:30:00.000000'', ''150.25'', ''10''])]
   \<and> process_file scenario_builtins scenario_files ''data/ctg_tick_two.csv''
     = Inr [(Some (''2024-01-01 09:30:00.000000'', Finite 151, 5), [],
               [''2024-01-01 09:30:00.000000'', ''151.00'', ''5''])]"
  using duplicate_rejection_scoped_to_one_file
    [of scenario_builtins "[''2024-01-01 09:30:00.000000'', ''150.25'', ''10'']"
        "(''2024-01-01 09:30:00.000000'', Finite (601 / 4), 10)"
        "[''2024-01-01 09:30:00.000000'', ''151.00'', ''5'']"
        "(''2024-01-01 09:30:00.000000'', Finite 151, 5)" "[]" "[]"
        scenario_files "''data/ctg_tick_same.csv''" header_row "[]" "[]"]
  by (simp add: scenario_eval scenario_files_def process_file_def read_tick_data_def
      clean_and_validate_row_def Let_def)

section \<open>The aggregation loop\<close>

lemma ohlcv_step_outside:
  "py_strptime L ts tick_format = Some t \<Longrightarrow> t < start_time \<or> t > end_time
   \<Longrightarrow> ohlcv_step L interval start_time end_time (ts, price, n) st = Inr st"
  by (auto simp: ohlcv_step_def)

lemma ohlcv_loop_filter:
  assumes "\<forall>r \<in> set data. py_strptime L (fst r) tick_format \<noteq> None"
  shows "ohlcv_loop L interval start_time end_time data st
       = ohlcv_loop L interval start_time end_time (filter (in_window L start_time end_time) data) st"
  using assms
proof (induction data arbitrary: st)
  case Nil
  then show ?case by simp
next
  case (Cons r data)
  obtain ts price n where r: "r = (ts, price, n)" by (cases r)
  from Cons.prems obtain t where t: "py_strptime L ts tick_format = Some t"
    by (auto simp: r)
  show ?case
  proof (cases "in_window L start_time end_time r")
    case True
    then show ?thesis using Cons by (simp split: sum.splits)
  next
    case False
    then have "t < start_time \<or> t > end_time" using t by (auto simp: in_window_def r)
    from ohlcv_step_outside[OF t this] False Cons show ?thesis by (simp add: r)
  qed
qed

lemma aggregate_ohlcv_filter:
  assumes "\<forall>r \<in> set data. py_strptime L (fst r) tick_format \<noteq> None"
  shows "fst (aggregate_ohlcv L data interval start_time end_time)
       = fst (aggregate_ohlcv L (filter (in_window L start_time end_time) data)
                interval start_time end_time)"
proof -
  have "\<forall>r \<in> set (sort_key fst data). py_strptime L (fst r) tick_format \<noteq> None"
    using assms by simp
  from ohlcv_loop_filter[OF this]
  show ?thesis
    by (simp add: aggregate_ohlcv_def Let_def filter_sort split: sum.splits)
qed

lemma dt_vals:
  "datetime_of 2024 1 1 9 30 0 0 = 63839698200000000"
  "datetime_of 2024 1 1 9 32 0 0 = 63839698320000000"
  "datetime_of 2024 1 1 9 29 59 999999 = 63839698199999999"
  "datetime_of 2024 1 1 9 32 0 1 = 63839698320000001"
  "datetime_of 2024 1 1 9 30 5 0 = 63839698205000000"
  "datetime_of 2024 1 1 9 30 50 0 = 63839698250000000"
  "datetime_of 2024 1 1 9 31 10 0 = 63839698270000000"
  "datetime_of 2024 1 1 9 31 20 0 = 63839698280000000"
  by (simp_all add: datetime_of_def days_before_year_def days_before_month_def is_leap_def)

text \<open>
  C5. A record whose timestamp parses to \<open>t\<close>. When \<open>t\<close> is strictly before the window
  start or strictly after the window end, the loop body leaves the state as it is, and
  the record alone yields the empty table. When \<open>start_time \<le> t \<le> end_time\<close>, both
  ends included, the loop body either raises \<open>OverflowError\<close> (from adding the interval
  to the interval start) or leaves a current bar that has taken the record in; alone,
  the record then yields the one bar keyed by \<open>t\<close>. For a whole list whose timestamps
  parse, the table is the table of the records inside the closed window.
\<close>

theorem window_inclusive_at_both_ends:
  assumes "py_strptime L ts tick_format = Some t"
  shows "(t < start_time \<or> t > end_time \<longrightarrow>
            ohlcv_step L interval start_time end_time (ts, price, n) st = Inr st
            \<and> fst (aggregate_ohlcv L [(ts, price, n)] interval start_time end_time) = Inr [])
       \<and> (start_time \<le> t \<and> t \<le> end_time \<longrightarrow>
            (case ohlcv_step L interval start_time end_time (ts, price, n) st of
               Inl e \<Rightarrow> e = OverflowError
             | Inr st' \<Rightarrow>
                 current_ohlcv st' = update_ohlcv price n (current_ohlcv st)
                 \<or> current_ohlcv st' = update_ohlcv price n new_ohlcv))
       \<and> (start_time \<le> t \<and> t \<le> end_time \<and> 0 \<le> t + interval \<and> t + interval \<le> datetime_max \<longrightarrow>
            fst (aggregate_ohlcv L [(ts, price, n)] interval start_time end_time)
              = Inr [(Some t, update_ohlcv price n new_ohlcv)])
       \<and> ((\<forall>r \<in> set data. py_strptime L (fst r) tick_format \<noteq> None) \<longrightarrow>
            fst (aggregate_ohlcv L data interval start_time end_time)
              = fst (aggregate_ohlcv L (filter (in_window L start_time end_time) data)
                       interval start_time end_time))"
proof -
  have "(\<forall>r \<in> set data. py_strptime L (fst r) tick_format \<noteq> None) \<longrightarrow>
            fst (aggregate_ohlcv L data interval start_time end_time)
              = fst (aggregate_ohlcv L (filter (in_window L start_time end_time) data)
                       interval start_time end_time)"
    using aggregate_ohlcv_filter by blast
  moreover have "(t < start_time \<or> t > end_time \<longrightarrow>
            ohlcv_step L interval start_time end_time (ts, price, n) st = Inr st
            \<and> fst (aggregate_ohlcv L [(ts, price, n)] interval start_time end_time) = Inr [])
       \<and> (start_time \<le> t \<and> t \<le> end_time \<longrightarrow>
            (case ohlcv_step L interval start_time end_time (ts, price, n) st of
               Inl e \<Rightarrow> e = OverflowError
             | Inr st' \<Rightarrow>
                 current_ohlcv st' = update_ohlcv price n (current_ohlcv st)
                 \<or> current_ohlcv st' = update_ohlcv price n new_ohlcv))
       \<and> (start_time \<le> t \<and> t \<le> end_time \<and> 0 \<le> t + interval \<and> t + interval \<le> datetime_max \<longrightarrow>
            fst (aggregate_ohlcv L [(ts, price, n)] interval start_time end_time)
              = Inr [(Some t, update_ohlcv price n new_ohlcv)])"
    using assms
    by (auto simp: ohlcv_step_def aggregate_ohlcv_def init_state_def seal_last_def dt_add_def
        update_ohlcv_def new_ohlcv_def Let_def split: option.splits sum.splits)
  ultimately show ?thesis by blast
qed

theorem window_inclusive_at_both_ends_witness:
  "fst (aggregate_ohlcv scenario_builtins [(''2024-01-01 09:30:00.000000'', Finite 101, 2)]
          300000000 (datetime_of 2024 1 1 9 30 0 0) (datetime_of 2024 1 1 9 32 0 0))
     = Inr [(Some (datetime_of 2024 1 1 9 30 0 0), update_ohlcv (Finite 101) 2 new_ohlcv)]
   \<and> fst (aggregate_ohlcv scenario_builtins [(''2024-01-01 09:32:00.000000'', Finite 102, 4)]
          300000000 (datetime_of 2024 1 1 9 30 0 0) (datetime_of 2024 1 1 9 32 0 0))
     = Inr [(Some (datetime_of 2024 1 1 9 32 0 0), update_ohlcv (Finite 102) 4 new_ohlcv)]
   \<and> fst (aggregate_ohlcv scenario_builtins [(''2024-01-01 09:29:59.999999'', Finite 100, 1)]
          300000000 (datetime_of 2024 1 1 9 30 0 0) (datetime_of 2024 1 1 9 32 0 0))
     = Inr []
   \<and> fst (aggregate_ohlcv scenario_builtins [(''2024-01-01 09:32:00.000001'', Finite 103, 8)]
          300000000 (datetime_of 2024 1 1 9 30 0 0) (datetime_of 2024 1 1 9 32 0 0))
     = Inr []
   \<and> fst (aggregate_ohlcv scenario_builtins
          [(''2024-01-01 09:32:00.000001'', Finite 103, 8),
           (''2024-01-01 09:32:00.000000'', Finite 102, 4),
           (''2024-01-01 09:30:00.000000'', Finite 101, 2),
           (''2024-01-01 09:29:59.999999'', Finite 100, 1)]
          300000000 (datetime_of 2024 1 1 9 30 0 0) (datetime_of 2024 1 1 9 32 0 0))
     = Inr [(Some (datetime_of 2024 1 1 9 30 0 0),
             \<lparr>open = Some (Finite 101), high = Finite 102, low = Finite 101,
              close = Some (Finite 102), volume = 6\<rparr>)]"
proof -
  have p1: "py_strptime scenario_builtins ''2024-01-01 09:30:00.000000'' tick_format
              = Some (datetime_of 2024 1 1 9 30 0 0)"
    and p2: "py_strptime scenario_builtins ''2024-01-01 09:32:00.000000'' tick_format
              = Some (datetime_of 2024 1 1 9 32 0 0)"
    and p3: "py_strptime scenario_builtins ''2024-01-01 09:29:59.999999'' tick_format
              = Some (datetime_of 2024 1 1 9 29 59 999999)"
    and p4: "py_strptime scenario_builtins ''2024-01-01 09:32:00.000001'' tick_format
              = Some (datetime_of 2024 1 1 9 32 0 1)"
    by (simp_all add: scenario_eval)
  have c1: "fst (aggregate_ohlcv scenario_builtins [(''2024-01-01 09:30:00.000000'', Finite 101, 2)]
          300000000 (datetime_of 2024 1 1 9 30 0 0) (datetime_of 2024 1 1 9 32 0 0))
     = Inr [(Some (datetime_of 2024 1 1 9 30 0 0), update_ohlcv (Finite 101) 2 new_ohlcv)]"
    using window_inclusive_at_both_ends[OF p1, of "datetime_of 2024 1 1 9 30 0 0"
        "datetime_of 2024 1 1 9 32 0 0" 300000000 "Finite 101" 2 init_state "[]"]
    by (simp add: dt_vals datetime_max_def us_per_day_def)
  have c2: "fst (aggregate_ohlcv scenario_builtins [(''2024-01-01 09:32:00.000000'', Finite 102, 4)]
          300000000 (datetime_of 2024 1 1 9 30 0 0) (datetime_of 2024 1 1 9 32 0 0))
     = Inr [(Some (datetime_of 2024 1 1 9 32 0 0), update_ohlcv (Finite 102) 4 new_ohlcv)]"
    using window_inclusive_at_both_ends[OF p2, of "datetime_of 2024 1 1 9 30 0 0"
        "datetime_of 2024 1 1 9 32 0 0" 300000000 "Finite 102" 4 init_state "[]"]
    by (simp add: dt_vals datetime_max_def us_per_day_def)
  have c3: "fst (aggregate_ohlcv scenario_builtins [(''2024-01-01 09:29:59.999999'', Finite 100, 1)]
          300000000 (datetime_of 2024 1 1 9 30 0 0) (datetime_of 2024 1 1 9 32 0 0))
     = Inr []"
    using window_inclusive_at_both_ends[OF p3, of "datetime_of 2024 1 1 9 30 0 0"
        "datetime_of 2024 1 1 9 32 0 0" 300000000 "Finite 100" 1 init_state "[]"]
    by (simp add: dt_vals)
  have c4: "fst (aggregate_ohlcv scenario_builtins [(''2024-01-01 09:32:00.000001'', Finite 103, 8)]
          300000000 (datetime_of 2024 1 1 9 30 0 0) (datetime_of 2024 1 1 9 32 0 0))
     = Inr []"
    using window_inclusive_at_both_ends[OF p4, of "datetime_of 2024 1 1 9 30 0 0"
        "datetime_of 2024 1 1 9 32 0 0" 300000000 "Finite 103" 8 init_state "[]"]
    by (simp add: dt_vals)
  have c5: "fst (aggregate_ohlcv scenario_builtins
          [(''2024-01-01 09:32:00.000001'', Finite 103, 8),
           (''2024-01-01 09:32:00.000000'', Finite 102, 4),
           (''2024-01-01 09:30:00.000000'', Finite 101, 2),
           (''2024-01-01 09:29:59.999999'', Finite 100, 1)]
          300000000 (datetime_of 2024 1 1 9 30 0 0) (datetime_of 2024 1 1 9 32 0 0))
     = Inr [(Some (datetime_of 2024 1 1 9 30 0 0),
             \<lparr>open = Some (Finite 101), high = Finite 102, low = Finite 101,
              close = Some (Finite 102), volume = 6\<rparr>)]"
    by code_simp
  from c1 c2 c3 c4 c5 show ?thesis by (intro conjI)
qed

text \<open>
  C8. Running \<open>aggregate_ohlcv\<close> again on the list as the first run left it (sorted in
  place) gives the same result, table or exception, and leaves the list unchanged.
\<close>

theorem aggregate_ohlcv_idempotent:
  "aggregate_ohlcv L (snd (aggregate_ohlcv L data interval start_time end_time))
       interval start_time end_time
     = aggregate_ohlcv L data interval start_time end_time
   \<and> snd (aggregate_ohlcv L data interval start_time end_time) = sort_key fst data"
proof -
  have s: "snd (aggregate_ohlcv L data interval start_time end_time) = sort_key fst data"
    by (simp add: aggregate_ohlcv_def Let_def split: sum.splits)
  have "sort_key fst (sort_key fst data) = sort_key fst data"
    by (simp add: sort_key_id_if_sorted)
  then show ?thesis unfolding s
    by (simp add: aggregate_ohlcv_def Let_def)
qed

section \<open>The interval prompt\<close>

lemma split_char_notin: "c \<notin> set s \<Longrightarrow> split_char c s = [s]"
  by (induction s) auto

lemma split_char_nonempty [simp]: "split_char c s \<noteq> []"
  by (induction s) auto

lemma split_char_hd: "split_char c s ! 0 = takeWhile (\<lambda>x. x \<noteq> c) s"
  by (induction s) (auto simp: hd_conv_nth)

lemma split_char_tl: "c \<in> set s \<Longrightarrow> tl (split_char c s) = split_char c (tl (dropWhile (\<lambda>x. x \<noteq> c) s))"
  by (induction s) auto

lemma split_char_length: "c \<in> set s \<Longrightarrow> length (split_char c s) > 1"
  by (induction s) (auto simp: Suc_lessI)

lemma split_char_snd:
  assumes "c \<in> set s"
  shows "split_char c s ! Suc 0 = takeWhile (\<lambda>x. x \<noteq> c) (tl (dropWhile (\<lambda>x. x \<noteq> c) s))"
proof -
  have "split_char c s ! Suc 0 = tl (split_char c s) ! 0"
    using split_char_length[OF assms] by (simp add: nth_tl)
  then show ?thesis
    by (simp add: split_char_tl[OF assms] split_char_hd)
qed

lemma interval_component_eq:
  "interval_component L u s =
     (if u \<in> set s then
        (case py_int L (takeWhile (\<lambda>x. x \<noteq> u) s) of
           None \<Rightarrow> Inl ValueError
         | Some n \<Rightarrow> Inr (n, takeWhile (\<lambda>x. x \<noteq> u) (tl (dropWhile (\<lambda>x. x \<noteq> u) s))))
      else Inr (0, s))"
  using split_char_length[of u s]
  by (auto simp: interval_component_def Let_def split_char_hd split_char_snd split: option.splits)



lemma interval_component_error: "interval_component L u s = Inl e \<Longrightarrow> e = ValueError"
  by (auto simp: interval_component_eq split: if_splits option.splits)

lemma mk_timedelta_error: "mk_timedelta d h m s = Inl e \<Longrightarrow> e = OverflowError"
  by (auto simp: mk_timedelta_def Let_def split: if_splits)

lemma parse_interval_error:
  "parse_interval L s = Inl e \<Longrightarrow> e = ValueError \<or> e = OverflowError"
  by (auto simp: parse_interval_def split: sum.splits prod.splits
      dest: interval_component_error mk_timedelta_error)



lemma parse_neg5m:
  "py_int L ''-5'' = Some (- 5) \<Longrightarrow> parse_interval L ''-5m'' = Inr (- 300000000)"
  by (simp add: parse_interval_def interval_component_eq mk_timedelta_def timedelta_min_def timedelta_max_def us_per_day_def)

lemma parse_1m:
  "py_int L ''1'' = Some 1 \<Longrightarrow> parse_interval L ''1m'' = Inr 60000000"
  by (simp add: parse_interval_def interval_component_eq mk_timedelta_def timedelta_min_def timedelta_max_def us_per_day_def)

lemma first_component_fails:
  "CHR ''d'' \<in> set s \<Longrightarrow> py_int L (takeWhile (\<lambda>x. x \<noteq> CHR ''d'') s) = None
   \<Longrightarrow> parse_interval L s = Inl ValueError"
  by (simp add: parse_interval_def interval_component_eq)


lemma get_interval_input_accept:
  "parse_interval L (py_lower L (py_strip L line)) = Inr d \<Longrightarrow> d \<noteq> 0
   \<Longrightarrow> get_interval_input L (line # inputs) = (Inr d, inputs)"
  by (simp add: Let_def)

lemma get_interval_input_raise:
  "parse_interval L (py_lower L (py_strip L line)) = Inl e \<Longrightarrow> e \<noteq> ValueError
   \<Longrightarrow> get_interval_input L (line # inputs) = (Inl OverflowError, inputs)"
  using parse_interval_error[of L "py_lower L (py_strip L line)" e] by (simp add: Let_def)






lemma main_runs_aggregation:
  assumes "get_interval_input L inputs = (Inr d, inputs1)"
      and "get_datetime_input L inputs1 = (Inr s, inputs2)"
      and "get_datetime_input L inputs2 = (Inr e, inputs3)"
      and "s < e"
  shows "main L all_results inputs =
           (case fst (aggregate_ohlcv L (cleaned_data (tally_all all_results)) d s e) of
              Inl err \<Rightarrow> Inl err
            | Inr table \<Rightarrow>
                Inr ((total_rows (tally_all all_results), valid_rows (tally_all all_results),
                      invalid_rows (tally_all all_results)), Some table))"
  using assms by (simp add: main_def Let_def)

text \<open>
  C10. A line whose parsed duration is not zero is accepted: the prompt returns that
  duration and reads no further line. The prompt only goes on to the next line for a
  parsed duration of zero or a \<open>ValueError\<close>; the one other outcome of parsing, an
  \<open>OverflowError\<close>, is not caught and leaves the prompt. Where \<open>int\<close> maps the text -5
  to that number, \<open>-5m\<close> parses to minus five minutes, a negative duration, which is
  accepted; and \<open>main\<close> hands whatever the prompt returned to \<open>aggregate_ohlcv\<close>.
\<close>

theorem nonzero_interval_accepted_even_negative:
  "(parse_interval L (py_lower L (py_strip L line)) = Inr d \<and> d \<noteq> 0 \<longrightarrow>
      get_interval_input L (line # inputs) = (Inr d, inputs))
   \<and> (parse_interval L (py_lower L (py_strip L line)) = Inl e \<and> e \<noteq> ValueError \<longrightarrow>
        e = OverflowError \<and> get_interval_input L (line # inputs) = (Inl OverflowError, inputs))
   \<and> (py_int L ''-5'' = Some (- 5) \<longrightarrow>
        parse_interval L ''-5m'' = Inr (- 300000000)
        \<and> parse_interval L ''-5m'' = mk_timedelta 0 0 (- 5) 0)
   \<and> (py_int L ''-5'' = Some (- 5) \<and> py_lower L (py_strip L line) = ''-5m'' \<longrightarrow>
        get_interval_input L (line # inputs) = (Inr (- 300000000), inputs))
   \<and> (get_interval_input L lines = (Inr d, lines1)
        \<and> get_datetime_input L lines1 = (Inr start_time, lines2)
        \<and> get_datetime_input L lines2 = (Inr end_time, lines3)
        \<and> start_time < end_time \<longrightarrow>
        main L all_results lines =
           (case fst (aggregate_ohlcv L (cleaned_data (tally_all all_results)) d
                        start_time end_time) of
              Inl err \<Rightarrow> Inl err
            | Inr table \<Rightarrow>
                Inr ((total_rows (tally_all all_results), valid_rows (tally_all all_results),
                      invalid_rows (tally_all all_results)), Some table)))"
proof -
  have a: "parse_interval L (py_lower L (py_strip L line)) = Inr d \<and> d \<noteq> 0 \<longrightarrow>
      get_interval_input L (line # inputs) = (Inr d, inputs)"
    using get_interval_input_accept[of L line d inputs] by blast
  have b: "parse_interval L (py_lower L (py_strip L line)) = Inl e \<and> e \<noteq> ValueError \<longrightarrow>
        e = OverflowError \<and> get_interval_input L (line # inputs) = (Inl OverflowError, inputs)"
    using get_interval_input_raise[of L line e inputs]
      parse_interval_error[of L "py_lower L (py_strip L line)" e] by blast
  have c: "py_int L ''-5'' = Some (- 5) \<longrightarrow>
        parse_interval L ''-5m'' = Inr (- 300000000)
        \<and> parse_interval L ''-5m'' = mk_timedelta 0 0 (- 5) 0"
    by (simp add: parse_neg5m mk_timedelta_def timedelta_min_def timedelta_max_def us_per_day_def)
  have d: "py_int L ''-5'' = Some (- 5) \<and> py_lower L (py_strip L line) = ''-5m'' \<longrightarrow>
        get_interval_input L (line # inputs) = (Inr (- 300000000), inputs)"
    using get_interval_input_accept[of L line "- 300000000" inputs] by (auto simp: parse_neg5m)
  have e: "get_interval_input L lines = (Inr d, lines1)
        \<and> get_datetime_input L lines1 = (Inr start_time, lines2)
        \<and> get_datetime_input L lines2 = (Inr end_time, lines3)
        \<and> start_time < end_time \<longrightarrow>
        main L all_results lines =
           (case fst (aggregate_ohlcv L (cleaned_data (tally_all all_results)) d
                        start_time end_time) of
              Inl err \<Rightarrow> Inl err
            | Inr table \<Rightarrow>
                Inr ((total_rows (tally_all all_results), valid_rows (tally_all all_results),
                      invalid_rows (tally_all all_results)), Some table))"
    using main_runs_aggregation[of L lines d lines1 start_time lines2 end_time lines3 all_results]
    by blast
  from a b c d e show ?thesis by blast
qed

text \<open>
  The witness types \<open>-5m\<close> and the window of the scenarios over the results of the file
  with the duplicated timestamp: the run ends with a table.
\<close>

theorem nonzero_interval_accepted_even_negative_witness:
  "get_interval_input scenario_builtins [''-5m'', ''2024-01-01 09:30:00'', ''2024-01-01 09:32:00'']
     = (Inr (- 300000000), [''2024-01-01 09:30:00'', ''2024-01-01 09:32:00''])
   \<and> main scenario_builtins
        [[(Some (''2024-01-01 09:30:00.000000'', Finite (601 / 4), 10), [],
             [''2024-01-01 09:30:00.000000'', ''150.25'', ''10'']),
          (None, [DuplicateTimestamp], [''2024-01-01 09:30:00.000000'', ''151.00'', ''5''])]]
        [''-5m'', ''2024-01-01 09:30:00'', ''2024-01-01 09:32:00'']
     = Inr ((2, 1, 1),
            Some [(Some (datetime_of 2024 1 1 9 30 0 0),
                   \<lparr>open = Some (Finite (601 / 4)), high = Finite (601 / 4),
                    low = Finite (601 / 4), close = Some (Finite (601 / 4)), volume = 10\<rparr>)])"
proof -
  have h: "py_int scenario_builtins ''-5'' = Some (- 5)
       \<and> py_lower scenario_builtins (py_strip scenario_builtins ''-5m'') = ''-5m''"
    by (simp add: scenario_eval)
  have g: "get_interval_input scenario_builtins
             [''-5m'', ''2024-01-01 09:30:00'', ''2024-01-01 09:32:00'']
     = (Inr (- 300000000), [''2024-01-01 09:30:00'', ''2024-01-01 09:32:00''])"
    using nonzero_interval_accepted_even_negative
      [of scenario_builtins "''-5m''" 0 "[''2024-01-01 09:30:00'', ''2024-01-01 09:32:00'']"]
      h by blast
  have m: "main scenario_builtins
        [[(Some (''2024-01-01 09:30:00.000000'', Finite (601 / 4), 10), [],
             [''2024-01-01 09:30:00.000000'', ''150.25'', ''10'']),
          (None, [DuplicateTimestamp], [''2024-01-01 09:30:00.000000'', ''151.00'', ''5''])]]
        [''-5m'', ''2024-01-01 09:30:00'', ''2024-01-01 09:32:00'']
     = Inr ((2, 1, 1),
            Some [(Some (datetime_of 2024 1 1 9 30 0 0),
                   \<lparr>open = Some (Finite (601 / 4)), high = Finite (601 / 4),
                    low = Finite (601 / 4), close = Some (Finite (601 / 4)), volume = 10\<rparr>)])"
    by code_simp
  from g m show ?thesis by simp
qed

section \<open>Scenario B\<close>

lemma sort_three:
  assumes m: "mset data = {#r1, r2, r3#}"
      and k: "fst r1 < fst r2" "fst r2 < fst r3"
  shows "sort_key fst data = [r1, r2, r3]"
proof (rule properties_for_sort_key)
  show "mset [r1, r2, r3] = mset data" using m by simp
  show "sorted (map fst [r1, r2, r3])" using k by auto
  fix x assume x: "x \<in> set [r1, r2, r3]"
  have "mset (filter (\<lambda>y. fst x = fst y) data) = mset (filter (\<lambda>y. fst x = fst y) [r1, r2, r3])"
    using m by simp
  moreover have "filter (\<lambda>y. fst x = fst y) [r1, r2, r3] = [x]"
    using x k by auto
  ultimately have "mset (filter (\<lambda>y. fst x = fst y) data) = {#x#}" by simp
  then have "filter (\<lambda>y. fst x = fst y) data = [x]" by (simp only: mset_single_iff)
  then show "filter (\<lambda>y. fst x = fst y) [r1, r2, r3] = filter (\<lambda>y. fst x = fst y) data"
    using \<open>filter (\<lambda>y. fst x = fst y) [r1, r2, r3] = [x]\<close> by simp
qed

lemma ts_order:
  "''2024-01-01 09:30:05.000000'' < ''2024-01-01 09:30:50.000000''"
  "''2024-01-01 09:30:50.000000'' < ''2024-01-01 09:31:10.000000''"
  by code_simp+

text \<open>
  C1. Scenario B. The three cleaned records at 09:30:05 (price 100, size 1), 09:30:50
  (price 105, size 2) and 09:31:10 (price 102, size 3) of 2024-01-01, in any order, the
  interval \<open>1m\<close> and the window from 09:30:00 to 09:32:00: the table holds exactly two
  bars, keyed 09:30:05 (open 100, high 105, low 100, close 105, volume 3) and 09:31:10
  (open, high, low and close 102, volume 3). The hypotheses say what \<open>strptime\<close> and
  \<open>int\<close> return on the texts of the scenario.
\<close>

theorem scenario_B_two_bars:
  assumes t1: "py_strptime L ''2024-01-01 09:30:05.000000'' tick_format
                 = Some (datetime_of 2024 1 1 9 30 5 0)"
      and t2: "py_strptime L ''2024-01-01 09:30:50.000000'' tick_format
                 = Some (datetime_of 2024 1 1 9 30 50 0)"
      and t3: "py_strptime L ''2024-01-01 09:31:10.000000'' tick_format
                 = Some (datetime_of 2024 1 1 9 31 10 0)"
      and i: "py_int L ''1'' = Some 1"
      and d: "mset data = {#(''2024-01-01 09:30:05.000000'', Finite 100, 1),
                           (''2024-01-01 09:30:50.000000'', Finite 105, 2),
                           (''2024-01-01 09:31:10.000000'', Finite 102, 3)#}"
  shows "parse_interval L ''1m'' = Inr 60000000
       \<and> fst (aggregate_ohlcv L data 60000000
                (datetime_of 2024 1 1 9 30 0 0) (datetime_of 2024 1 1 9 32 0 0))
         = Inr [(Some (datetime_of 2024 1 1 9 30 5 0),
                 \<lparr>open = Some (Finite 100), high = Finite 105, low = Finite 100,
                  close = Some (Finite 105), volume = 3\<rparr>),
                (Some (datetime_of 2024 1 1 9 31 10 0),
                 \<lparr>open = Some (Finite 102), high = Finite 102, low = Finite 102,
                  close = Some (Finite 102), volume = 3\<rparr>)]"
proof -
  have s: "sort_key fst data = [(''2024-01-01 09:30:05.000000'', Finite 100, 1),
                           (''2024-01-01 09:30:50.000000'', Finite 105, 2),
                           (''2024-01-01 09:31:10.000000'', Finite 102, 3)]"
    by (rule sort_three[OF d]) (simp_all add: ts_order)
  have "fst (aggregate_ohlcv L data 60000000
                (datetime_of 2024 1 1 9 30 0 0) (datetime_of 2024 1 1 9 32 0 0))
         = Inr [(Some (datetime_of 2024 1 1 9 30 5 0),
                 \<lparr>open = Some (Finite 100), high = Finite 105, low = Finite 100,
                  close = Some (Finite 105), volume = 3\<rparr>),
                (Some (datetime_of 2024 1 1 9 31 10 0),
                 \<lparr>open = Some (Finite 102), high = Finite 102, low = Finite 102,
                  close = Some (Finite 102), volume = 3\<rparr>)]"
    unfolding aggregate_ohlcv_def Let_def s
    by (simp add: t1 t2 t3 dt_vals ohlcv_step_def dt_add_def datetime_max_def us_per_day_def
      init_state_def new_ohlcv_def update_ohlcv_def py_max_def py_min_def seal_last_def)
  then show ?thesis using i by (simp add: parse_1m)
qed

theorem scenario_B_two_bars_witness:
  "parse_interval scenario_builtins ''1m'' = Inr 60000000
   \<and> fst (aggregate_ohlcv scenario_builtins
            [(''2024-01-01 09:30:05.000000'', Finite 100, 1),
             (''2024-01-01 09:30:50.000000'', Finite 105, 2),
             (''2024-01-01 09:31:10.000000'', Finite 102, 3)]
            60000000 (datetime_of 2024 1 1 9 30 0 0) (datetime_of 2024 1 1 9 32 0 0))
       = Inr [(Some (datetime_of 2024 1 1 9 30 5 0),
               \<lparr>open = Some (Finite 100), high = Finite 105, low = Finite 100,
                close = Some (Finite 105), volume = 3\<rparr>),
              (Some (datetime_of 2024 1 1 9 31 10 0),
               \<lparr>open = Some (Finite 102), high = Finite 102, low = Finite 102,
                close = Some (Finite 102), volume = 3\<rparr>)]"
  using scenario_B_two_bars
    [of scenario_builtins
        "[(''2024-01-01 09:30:05.000000'', Finite 100, 1),
          (''2024-01-01 09:30:50.000000'', Finite 105, 2),
          (''2024-01-01 09:31:10.000000'', Finite 102, 3)]"]
  by (simp add: scenario_eval)

section \<open>The bars of the table\<close>

lemma ohlcv_loop_snoc:
  "ohlcv_loop L interval start_time end_time (xs @ [x]) st =
     (case ohlcv_loop L interval start_time end_time xs st of
        Inl e \<Rightarrow> Inl e
      | Inr st' \<Rightarrow> ohlcv_step L interval start_time end_time x st')"
  by (induction xs arbitrary: st) (auto split: sum.splits)

lemma bar_of_snoc: "bar_of (g @ [r]) = update_ohlcv (fst (snd r)) (snd (snd r)) (bar_of g)"
  by (simp add: bar_of_def)

lemma bar_of_Nil: "bar_of [] = new_ohlcv"
  by (simp add: bar_of_def)

lemma set_update_subset: "set (AList.update k v al) \<subseteq> insert (k, v) (set al)"
  by (induction al) auto

lemma ohlcv_step_inside:
  assumes "py_strptime L (fst r) tick_format = Some t"
      and "start_time \<le> t" "t \<le> end_time"
      and "dt_add (case interval_start st of None \<Rightarrow> t | Some s \<Rightarrow> s) interval = Inr b"
  shows "ohlcv_step L interval start_time end_time r st =
           (let istart = (case interval_start st of None \<Rightarrow> t | Some s \<Rightarrow> s)
            in if t \<ge> b then
                 Inr \<lparr>ohlcv_data = AList.update (Some istart) (current_ohlcv st) (ohlcv_data st),
                      interval_start = Some t,
                      current_ohlcv = update_ohlcv (fst (snd r)) (snd (snd r)) new_ohlcv\<rparr>
               else
                 Inr \<lparr>ohlcv_data = ohlcv_data st,
                      interval_start = Some istart,
                      current_ohlcv = update_ohlcv (fst (snd r)) (snd (snd r)) (current_ohlcv st)\<rparr>)"
  using assms by (cases r) (auto simp: ohlcv_step_def Let_def)

lemma loop_invI:
  assumes "done \<noteq> []" and "interval_start st = Some s" and "s \<in> rec_time L ` set done"
      and "\<forall>r \<in> set done. rec_time L r < s + interval"
      and "current_ohlcv st = bar_of (filter (\<lambda>r. s \<le> rec_time L r) done)"
      and "\<And>k bar. (k, bar) \<in> set (ohlcv_data st) \<Longrightarrow>
             \<exists>t. k = Some t \<and> t + interval \<le> s \<and> t \<in> rec_time L ` set done
                \<and> bar = bar_of (filter (\<lambda>r. t \<le> rec_time L r \<and> rec_time L r < t + interval) done)"
  shows "loop_inv L interval done st"
proof -
  have "\<forall>(k, bar) \<in> set (ohlcv_data st).
          \<exists>t. k = Some t \<and> t + interval \<le> s \<and> t \<in> rec_time L ` set done
             \<and> bar = bar_of (filter (\<lambda>r. t \<le> rec_time L r \<and> rec_time L r < t + interval) done)"
    using assms(6) by blast
  with assms(1-5) show ?thesis
    unfolding loop_inv_def by (simp only: if_False) blast
qed

lemma loop_inv_step:
  assumes pos: "0 < interval"
      and rng: "0 \<le> start_time" "end_time + interval \<le> datetime_max"
      and inv: "loop_inv L interval done st"
      and win: "\<forall>x \<in> set (done @ [r]). in_window L start_time end_time x"
      and srt: "sorted (map (rec_time L) (done @ [r]))"
  shows "\<exists>st'. ohlcv_step L interval start_time end_time r st = Inr st'
               \<and> loop_inv L interval (done @ [r]) st'"
proof -
  define t where "t = rec_time L r"
  have pr: "py_strptime L (fst r) tick_format = Some t" and tw: "start_time \<le> t" "t \<le> end_time"
    using win by (auto simp: in_window_def t_def rec_time_def split: option.splits)
  have le: "\<forall>x \<in> set done. rec_time L x \<le> t"
    using srt by (auto simp: sorted_append t_def)
  have inw: "\<forall>x \<in> set done. start_time \<le> rec_time L x \<and> rec_time L x \<le> end_time"
    using win by (auto simp: in_window_def rec_time_def split: option.splits)
  show ?thesis
  proof (cases "done = []")
    case True
    then have st: "st = init_state" using inv by (simp add: loop_inv_def)
    have add: "dt_add (case interval_start st of None \<Rightarrow> t | Some s \<Rightarrow> s) interval = Inr (t + interval)"
      using pos rng tw by (simp add: st init_state_def dt_add_def)
    show ?thesis
      using ohlcv_step_inside[OF pr tw add] pos True
      by (simp add: st init_state_def loop_inv_def t_def bar_of_def)
  next
    case False
    with inv obtain s where s: "interval_start st = Some s" "s \<in> rec_time L ` set done"
        "\<forall>x \<in> set done. rec_time L x < s + interval"
        "current_ohlcv st = bar_of (filter (\<lambda>x. s \<le> rec_time L x) done)"
        "\<forall>(k, bar) \<in> set (ohlcv_data st).
            \<exists>u. k = Some u \<and> u + interval \<le> s \<and> u \<in> rec_time L ` set done
              \<and> bar = bar_of (filter (\<lambda>x. u \<le> rec_time L x \<and> rec_time L x < u + interval) done)"
      by (auto simp: loop_inv_def)
    have sw: "start_time \<le> s" "s \<le> end_time" "s \<le> t"
      using s(2) inw le by auto
    have add: "dt_add (case interval_start st of None \<Rightarrow> t | Some s \<Rightarrow> s) interval = Inr (s + interval)"
      using pos rng sw by (simp add: s(1) dt_add_def)
    show ?thesis
    proof (cases "t \<ge> s + interval")
      case True
      define st' where "st' = \<lparr>ohlcv_data = AList.update (Some s) (current_ohlcv st) (ohlcv_data st),
                      interval_start = Some t,
                      current_ohlcv = update_ohlcv (fst (snd r)) (snd (snd r)) new_ohlcv\<rparr>"
      have step: "ohlcv_step L interval start_time end_time r st = Inr st'"
        using ohlcv_step_inside[OF pr tw add] True by (simp add: s(1) st'_def)
      have f1: "filter (\<lambda>x. t \<le> rec_time L x) (done @ [r]) = [r]"
        using s(3) True by (auto simp: t_def filter_empty_conv)
      have cur: "current_ohlcv st' = bar_of (filter (\<lambda>x. t \<le> rec_time L x) (done @ [r]))"
        unfolding f1 by (simp add: st'_def bar_of_def)
      have bnd: "\<forall>x \<in> set (done @ [r]). rec_time L x < t + interval"
        using le pos by (auto simp: t_def)
      have tab: "\<exists>u. k = Some u \<and> u + interval \<le> t \<and> u \<in> rec_time L ` set (done @ [r])
              \<and> bar = bar_of (filter (\<lambda>x. u \<le> rec_time L x \<and> rec_time L x < u + interval) (done @ [r]))"
        if kb: "(k, bar) \<in> set (ohlcv_data st')" for k bar
      proof -
        from kb set_update_subset[of "Some s" "current_ohlcv st" "ohlcv_data st"]
        consider "(k, bar) = (Some s, current_ohlcv st)" | "(k, bar) \<in> set (ohlcv_data st)"
          by (auto simp: st'_def)
        then show ?thesis
        proof cases
          case 1
          have "filter (\<lambda>x. s \<le> rec_time L x \<and> rec_time L x < s + interval) (done @ [r])
                  = filter (\<lambda>x. s \<le> rec_time L x) done"
            using s(3) True by (auto simp: t_def intro: filter_cong)
          then show ?thesis using 1 s(2,4) True by auto
        next
          case 2
          with s(5) obtain u where u: "k = Some u" "u + interval \<le> s" "u \<in> rec_time L ` set done"
              "bar = bar_of (filter (\<lambda>x. u \<le> rec_time L x \<and> rec_time L x < u + interval) done)"
            by auto
          have "filter (\<lambda>x. u \<le> rec_time L x \<and> rec_time L x < u + interval) (done @ [r])
                  = filter (\<lambda>x. u \<le> rec_time L x \<and> rec_time L x < u + interval) done"
            using u(2) sw(3) pos by (auto simp: t_def)
          then show ?thesis using u True pos by auto
        qed
      qed
      have "loop_inv L interval (done @ [r]) st'"
      proof (rule loop_invI[where s = t])
        show "interval_start st' = Some t" by (simp add: st'_def)
        show "t \<in> rec_time L ` set (done @ [r])" by (simp add: t_def)
      qed (use cur bnd tab in simp_all)
      with step show ?thesis by blast
    next
      case F: False
      define st' where "st' = \<lparr>ohlcv_data = ohlcv_data st,
                      interval_start = Some s,
                      current_ohlcv = update_ohlcv (fst (snd r)) (snd (snd r)) (current_ohlcv st)\<rparr>"
      have step: "ohlcv_step L interval start_time end_time r st = Inr st'"
        using ohlcv_step_inside[OF pr tw add] F by (simp add: s(1) st'_def)
      have "filter (\<lambda>x. s \<le> rec_time L x) (done @ [r]) = filter (\<lambda>x. s \<le> rec_time L x) done @ [r]"
        using sw(3) by (simp add: t_def)
      then have cur: "current_ohlcv st' = bar_of (filter (\<lambda>x. s \<le> rec_time L x) (done @ [r]))"
        by (simp add: st'_def bar_of_snoc s(4))
      have bnd: "\<forall>x \<in> set (done @ [r]). rec_time L x < s + interval"
        using s(3) F by (auto simp: t_def)
      have tab: "\<exists>u. k = Some u \<and> u + interval \<le> s \<and> u \<in> rec_time L ` set (done @ [r])
              \<and> bar = bar_of (filter (\<lambda>x. u \<le> rec_time L x \<and> rec_time L x < u + interval) (done @ [r]))"
        if kb: "(k, bar) \<in> set (ohlcv_data st')" for k bar
      proof -
        from kb s(5) obtain u where u: "k = Some u" "u + interval \<le> s" "u \<in> rec_time L ` set done"
              "bar = bar_of (filter (\<lambda>x. u \<le> rec_time L x \<and> rec_time L x < u + interval) done)"
          by (auto simp: st'_def)
        have "filter (\<lambda>x. u \<le> rec_time L x \<and> rec_time L x < u + interval) (done @ [r])
                  = filter (\<lambda>x. u \<le> rec_time L x \<and> rec_time L x < u + interval) done"
          using u(2) sw(3) by (auto simp: t_def)
        then show ?thesis using u by auto
      qed
      have "loop_inv L interval (done @ [r]) st'"
      proof (rule loop_invI[where s = s])
        show "interval_start st' = Some s" by (simp add: st'_def)
        show "s \<in> rec_time L ` set (done @ [r])" using s(2) by auto
      qed (use cur bnd tab in simp_all)
      with step show ?thesis by blast
    qed
  qed
qed

lemma loop_inv_loop:
  assumes pos: "0 < interval"
      and rng: "0 \<le> start_time" "end_time + interval \<le> datetime_max"
      and win: "\<forall>x \<in> set ws. in_window L start_time end_time x"
      and srt: "sorted (map (rec_time L) ws)"
  shows "\<exists>st. ohlcv_loop L interval start_time end_time ws init_state = Inr st
              \<and> loop_inv L interval ws st"
  using win srt
proof (induction ws rule: rev_induct)
  case Nil
  then show ?case by (simp add: loop_inv_def)
next
  case (snoc r ws)
  then obtain st where st: "ohlcv_loop L interval start_time end_time ws init_state = Inr st"
      "loop_inv L interval ws st"
    by (auto simp: sorted_append)
  from loop_inv_step[OF pos rng st(2) snoc.prems]
  show ?case by (simp add: ohlcv_loop_snoc st(1))
qed

lemma fl_le_refl: "a \<noteq> NaN \<Longrightarrow> fl_le a a"
  by (cases a) auto

lemma fl_lt_le_trans: "fl_le a b \<Longrightarrow> fl_lt b c \<Longrightarrow> fl_le a c"
  by (cases a; cases b; cases c) auto

lemma fl_le_lt_trans: "fl_lt a b \<Longrightarrow> fl_le b c \<Longrightarrow> fl_le a c"
  by (cases a; cases b; cases c) auto

lemma fl_le_total: "a \<noteq> NaN \<Longrightarrow> b \<noteq> NaN \<Longrightarrow> \<not> fl_lt a b \<Longrightarrow> fl_le b a"
  by (cases a; cases b) auto

lemma fl_lt_imp_le: "fl_lt a b \<Longrightarrow> fl_le a b"
  by (cases a; cases b) auto

lemma bar_of_single: "bar_of [r] = update_ohlcv (fst (snd r)) (snd (snd r)) new_ohlcv"
  by (simp add: bar_of_def)

lemma high_bar_of_snoc: "high (bar_of (g @ [r])) = py_max (high (bar_of g)) (fst (snd r))"
  by (simp add: bar_of_snoc update_ohlcv_def)

lemma low_bar_of_snoc: "low (bar_of (g @ [r])) = py_min (low (bar_of g)) (fst (snd r))"
  by (simp add: bar_of_snoc update_ohlcv_def)

lemma high_bar_of:
  assumes "g \<noteq> []" and "\<forall>r \<in> set g. fst (snd r) \<noteq> NaN"
  shows "high (bar_of g) \<in> (fst \<circ> snd) ` set g
       \<and> (\<forall>r \<in> set g. fl_le (fst (snd r)) (high (bar_of g)))"
  using assms
proof (induction g rule: rev_induct)
  case Nil
  then show ?case by simp
next
  case (snoc r g)
  define p where "p = fst (snd r)"
  have p: "p \<noteq> NaN" using snoc.prems by (simp add: p_def)
  show ?case
  proof (cases "g = []")
    case True
    then show ?thesis using p
      by (cases p) (auto simp: bar_of_single update_ohlcv_def new_ohlcv_def py_max_def p_def)
  next
    case False
    with snoc have ih: "high (bar_of g) \<in> (fst \<circ> snd) ` set g"
        "\<forall>x \<in> set g. fl_le (fst (snd x)) (high (bar_of g))"
      by auto
    have hn: "high (bar_of g) \<noteq> NaN" using ih(1) snoc.prems(2) by auto
    show ?thesis
    proof (cases "fl_lt (high (bar_of g)) p")
      case True
      then show ?thesis using ih p
        by (auto simp: high_bar_of_snoc py_max_def p_def[symmetric] fl_le_refl
            intro: fl_lt_le_trans)
    next
      case F: False
      then show ?thesis using ih p hn
        by (auto simp: high_bar_of_snoc py_max_def p_def[symmetric] intro: fl_le_total)
    qed
  qed
qed

lemma low_bar_of:
  assumes "g \<noteq> []" and "\<forall>r \<in> set g. fst (snd r) \<noteq> NaN"
  shows "low (bar_of g) \<in> (fst \<circ> snd) ` set g
       \<and> (\<forall>r \<in> set g. fl_le (low (bar_of g)) (fst (snd r)))"
  using assms
proof (induction g rule: rev_induct)
  case Nil
  then show ?case by simp
next
  case (snoc r g)
  define p where "p = fst (snd r)"
  have p: "p \<noteq> NaN" using snoc.prems by (simp add: p_def)
  show ?case
  proof (cases "g = []")
    case True
    then show ?thesis using p
      by (cases p) (auto simp: bar_of_single update_ohlcv_def new_ohlcv_def py_min_def p_def)
  next
    case False
    with snoc have ih: "low (bar_of g) \<in> (fst \<circ> snd) ` set g"
        "\<forall>x \<in> set g. fl_le (low (bar_of g)) (fst (snd x))"
      by auto
    have hn: "low (bar_of g) \<noteq> NaN" using ih(1) snoc.prems(2) by auto
    show ?thesis
    proof (cases "fl_lt p (low (bar_of g))")
      case True
      then show ?thesis using ih p
        by (auto simp: low_bar_of_snoc py_min_def p_def[symmetric] fl_le_refl
            intro: fl_le_lt_trans)
    next
      case F: False
      then show ?thesis using ih p hn
        by (auto simp: low_bar_of_snoc py_min_def p_def[symmetric] intro: fl_le_total)
    qed
  qed
qed

lemma close_bar_of: "g \<noteq> [] \<Longrightarrow> close (bar_of g) = Some (fst (snd (last g)))"
  by (induction g rule: rev_induct) (auto simp: bar_of_snoc update_ohlcv_def)

lemma volume_bar_of: "volume (bar_of g) = sum_list (map (snd \<circ> snd) g)"
  by (induction g rule: rev_induct) (auto simp: bar_of_snoc bar_of_Nil update_ohlcv_def new_ohlcv_def)

lemma open_bar_of: "g \<noteq> [] \<Longrightarrow> open (bar_of g) = Some (fst (snd (hd g)))"
proof (induction g rule: rev_induct)
  case Nil
  then show ?case by simp
next
  case (snoc r g)
  then show ?case
    by (cases "g = []") (auto simp: bar_of_snoc bar_of_single update_ohlcv_def new_ohlcv_def)
qed

lemma sorted_map_mono:
  assumes "sorted (map f xs)"
      and "\<forall>x \<in> set xs. \<forall>y \<in> set xs. f x \<le> f y \<longrightarrow> g x \<le> g y"
  shows "sorted (map g xs)"
  using assms
proof (induction xs)
  case Nil
  then show ?case by simp
next
  case (Cons a xs)
  have "sorted (map g xs)" using Cons by simp
  moreover have "g a \<le> g y" if "y \<in> set xs" for y
  proof -
    have "f a \<le> f y" using Cons.prems(1) that by simp
    then show ?thesis using Cons.prems(2) that by simp
  qed
  ultimately show ?case by simp
qed

lemma seal_last_subset:
  "set (seal_last st) \<subseteq> insert (interval_start st, current_ohlcv st) (set (ohlcv_data st))"
proof (cases "open (current_ohlcv st) = None")
  case True
  then show ?thesis by (auto simp: seal_last_def)
next
  case False
  then have "seal_last st = AList.update (interval_start st) (current_ohlcv st) (ohlcv_data st)"
    by (simp add: seal_last_def)
  then show ?thesis by (simp add: set_update_subset)
qed

lemma sort_key_time_sorted:
  assumes mono: "\<forall>r \<in> set data. \<forall>r' \<in> set data. fst r \<le> fst r' \<longrightarrow> rec_time L r \<le> rec_time L r'"
  shows "sorted (map (rec_time L) (sort_key fst data))"
proof -
  have s: "sorted (map fst (sort_key fst data))" by simp
  have m: "\<forall>x \<in> set (sort_key fst data). \<forall>y \<in> set (sort_key fst data).
             fst x \<le> fst y \<longrightarrow> rec_time L x \<le> rec_time L y"
    using mono by simp
  from sorted_map_mono[OF s m] show ?thesis .
qed

lemma interval_records_sorted:
  assumes mono: "\<forall>r \<in> set data. \<forall>r' \<in> set data. fst r \<le> fst r' \<longrightarrow> rec_time L r \<le> rec_time L r'"
  shows "sorted (map (rec_time L) (interval_records L data interval start_time end_time t))"
  unfolding interval_records_def
  by (rule sorted_filter) (rule sort_key_time_sorted[OF mono])

lemma sorted_le_last: "sorted xs \<Longrightarrow> x \<in> set xs \<Longrightarrow> x \<le> last xs"
proof (induction xs)
  case Nil
  then show ?case by simp
next
  case (Cons a xs)
  then show ?case by (cases "xs = []") auto
qed

lemma interval_records_subset:
  "set (interval_records L data interval start_time end_time t) \<subseteq> set data"
  by (simp add: interval_records_def subset_iff)

lemma table_bars:
  assumes pos: "0 < interval"
      and rng: "0 \<le> start_time" "end_time + interval \<le> datetime_max"
      and parse: "\<forall>r \<in> set data. py_strptime L (fst r) tick_format \<noteq> None"
      and mono: "\<forall>r \<in> set data. \<forall>r' \<in> set data. fst r \<le> fst r' \<longrightarrow> rec_time L r \<le> rec_time L r'"
  shows "\<exists>table. fst (aggregate_ohlcv L data interval start_time end_time) = Inr table
           \<and> (\<forall>(k, bar) \<in> set table.
                 \<exists>t. k = Some t
                   \<and> interval_records L data interval start_time end_time t \<noteq> []
                   \<and> bar = bar_of (interval_records L data interval start_time end_time t))"
proof -
  define ds where "ds = sort_key fst data"
  define ws where "ws = filter (in_window L start_time end_time) ds"
  have ir: "interval_records L data interval start_time end_time t
              = filter (\<lambda>r. t \<le> rec_time L r \<and> rec_time L r < t + interval) ws" for t
    by (simp add: interval_records_def ws_def ds_def)
  have "sorted (map (rec_time L) ds)"
    unfolding ds_def by (rule sort_key_time_sorted[OF mono])
  then have srt: "sorted (map (rec_time L) ws)"
    unfolding ws_def by (rule sorted_filter)
  have win: "\<forall>x \<in> set ws. in_window L start_time end_time x"
    by (simp add: ws_def)
  from loop_inv_loop[OF pos rng win srt] obtain st
    where st: "ohlcv_loop L interval start_time end_time ws init_state = Inr st"
      and inv: "loop_inv L interval ws st"
    by blast
  have "\<forall>r \<in> set ds. py_strptime L (fst r) tick_format \<noteq> None"
    using parse by (simp add: ds_def)
  from ohlcv_loop_filter[OF this]
  have "ohlcv_loop L interval start_time end_time ds init_state = Inr st"
    using st by (simp add: ws_def)
  then have res: "fst (aggregate_ohlcv L data interval start_time end_time) = Inr (seal_last st)"
    by (simp add: aggregate_ohlcv_def Let_def ds_def)
  have bars: "\<exists>t. k = Some t
                   \<and> interval_records L data interval start_time end_time t \<noteq> []
                   \<and> bar = bar_of (interval_records L data interval start_time end_time t)"
    if kb: "(k, bar) \<in> set (seal_last st)" for k bar
  proof (cases "ws = []")
    case True
    then have "st = init_state" using inv by (simp add: loop_inv_def)
    then have "seal_last st = []"
      by (simp add: seal_last_def init_state_def new_ohlcv_def)
    with kb show ?thesis by simp
  next
    case False
    with inv obtain s where s: "interval_start st = Some s" "s \<in> rec_time L ` set ws"
        "\<forall>x \<in> set ws. rec_time L x < s + interval"
        "current_ohlcv st = bar_of (filter (\<lambda>x. s \<le> rec_time L x) ws)"
        "\<forall>(k, bar) \<in> set (ohlcv_data st).
            \<exists>u. k = Some u \<and> u + interval \<le> s \<and> u \<in> rec_time L ` set ws
              \<and> bar = bar_of (filter (\<lambda>x. u \<le> rec_time L x \<and> rec_time L x < u + interval) ws)"
      by (auto simp: loop_inv_def)
    from kb seal_last_subset[of st]
    have "(k, bar) = (Some s, current_ohlcv st) \<or> (k, bar) \<in> set (ohlcv_data st)"
      unfolding s(1) by blast
    then consider "(k, bar) = (Some s, current_ohlcv st)" | "(k, bar) \<in> set (ohlcv_data st)"
      by blast
    then have "\<exists>t. k = Some t \<and> t \<in> rec_time L ` set ws
        \<and> bar = bar_of (filter (\<lambda>x. t \<le> rec_time L x \<and> rec_time L x < t + interval) ws)"
    proof cases
      case 1
      have "filter (\<lambda>x. s \<le> rec_time L x \<and> rec_time L x < s + interval) ws
              = filter (\<lambda>x. s \<le> rec_time L x) ws"
        by (rule filter_cong) (use s(3) in simp_all)
      then have "bar = bar_of (filter (\<lambda>x. s \<le> rec_time L x \<and> rec_time L x < s + interval) ws)"
        using 1 s(4) by simp
      moreover have "k = Some s" using 1 by simp
      ultimately show ?thesis using s(2) by blast
    next
      case 2
      with s(5) show ?thesis by blast
    qed
    then obtain t where t: "k = Some t" "t \<in> rec_time L ` set ws"
        "bar = bar_of (filter (\<lambda>x. t \<le> rec_time L x \<and> rec_time L x < t + interval) ws)"
      by blast
    from t(2) obtain x where "x \<in> set ws" "rec_time L x = t" by blast
    with pos have "filter (\<lambda>x. t \<le> rec_time L x \<and> rec_time L x < t + interval) ws \<noteq> []"
      by (auto simp: filter_empty_conv)
    with t show ?thesis by (simp add: ir)
  qed
  from res bars show ?thesis by blast
qed

lemma bars_of_time_ordered_records:
  assumes pos: "0 < interval"
      and rng: "0 \<le> start_time" "end_time + interval \<le> datetime_max"
      and parse: "\<forall>r \<in> set data. py_strptime L (fst r) tick_format \<noteq> None"
      and mono: "\<forall>r \<in> set data. \<forall>r' \<in> set data. fst r \<le> fst r' \<longrightarrow> rec_time L r \<le> rec_time L r'"
  shows "\<exists>table. fst (aggregate_ohlcv L data interval start_time end_time) = Inr table
           \<and> (\<forall>(k, bar) \<in> set table.
                 \<exists>t g. k = Some t
                   \<and> g = interval_records L data interval start_time end_time t
                   \<and> g \<noteq> [] \<and> bar = bar_of g
                   \<and> open bar = Some (fst (snd (hd g)))
                   \<and> close bar = Some (fst (snd (last g)))
                   \<and> (\<forall>r \<in> set g. rec_time L r \<le> rec_time L (last g))
                   \<and> volume bar = sum_list (map (snd \<circ> snd) g)
                   \<and> ((\<forall>r \<in> set g. fst (snd r) \<noteq> NaN) \<longrightarrow>
                        high bar \<in> (fst \<circ> snd) ` set g
                        \<and> (\<forall>r \<in> set g. fl_le (fst (snd r)) (high bar))
                        \<and> low bar \<in> (fst \<circ> snd) ` set g
                        \<and> (\<forall>r \<in> set g. fl_le (low bar) (fst (snd r)))))"
proof -
  from table_bars[OF pos rng parse mono] obtain table
    where res: "fst (aggregate_ohlcv L data interval start_time end_time) = Inr table"
      and bars: "\<forall>(k, bar) \<in> set table.
                 \<exists>t. k = Some t
                   \<and> interval_records L data interval start_time end_time t \<noteq> []
                   \<and> bar = bar_of (interval_records L data interval start_time end_time t)"
    by blast
  have "\<exists>t g. k = Some t
                   \<and> g = interval_records L data interval start_time end_time t
                   \<and> g \<noteq> [] \<and> bar = bar_of g
                   \<and> open bar = Some (fst (snd (hd g)))
                   \<and> close bar = Some (fst (snd (last g)))
                   \<and> (\<forall>r \<in> set g. rec_time L r \<le> rec_time L (last g))
                   \<and> volume bar = sum_list (map (snd \<circ> snd) g)
                   \<and> ((\<forall>r \<in> set g. fst (snd r) \<noteq> NaN) \<longrightarrow>
                        high bar \<in> (fst \<circ> snd) ` set g
                        \<and> (\<forall>r \<in> set g. fl_le (fst (snd r)) (high bar))
                        \<and> low bar \<in> (fst \<circ> snd) ` set g
                        \<and> (\<forall>r \<in> set g. fl_le (low bar) (fst (snd r))))"
    if kb: "(k, bar) \<in> set table" for k bar
  proof -
    from bars kb obtain t where t: "k = Some t"
        "interval_records L data interval start_time end_time t \<noteq> []"
        "bar = bar_of (interval_records L data interval start_time end_time t)"
      by blast
    define g where "g = interval_records L data interval start_time end_time t"
    have g: "g \<noteq> []" "bar = bar_of g" using t by (simp_all add: g_def)
    have srt: "sorted (map (rec_time L) g)"
      unfolding g_def by (rule interval_records_sorted[OF mono])
    have lst: "\<forall>r \<in> set g. rec_time L r \<le> rec_time L (last g)"
    proof
      fix r assume "r \<in> set g"
      then have "rec_time L r \<in> set (map (rec_time L) g)" by simp
      from sorted_le_last[OF srt this] show "rec_time L r \<le> rec_time L (last g)"
        using g(1) by (simp add: last_map)
    qed
    have hl: "(\<forall>r \<in> set g. fst (snd r) \<noteq> NaN) \<longrightarrow>
                        high bar \<in> (fst \<circ> snd) ` set g
                        \<and> (\<forall>r \<in> set g. fl_le (fst (snd r)) (high bar))
                        \<and> low bar \<in> (fst \<circ> snd) ` set g
                        \<and> (\<forall>r \<in> set g. fl_le (low bar) (fst (snd r)))"
      using high_bar_of[OF g(1)] low_bar_of[OF g(1)] unfolding g(2) by blast
    show ?thesis
      using t(1) g lst hl open_bar_of[OF g(1)] close_bar_of[OF g(1)] volume_bar_of[of g]
      unfolding g_def by blast
  qed
  with res show ?thesis by blast
qed



lemma concat_groups: "concat (groups L interval xs) = xs"
  by (induction L interval xs rule: groups.induct) auto

lemma groups_subset: "g \<in> set (groups L interval xs) \<Longrightarrow> set g \<subseteq> set xs"
proof -
  assume "g \<in> set (groups L interval xs)"
  then have "set g \<subseteq> set (concat (groups L interval xs))" by auto
  then show ?thesis by (simp add: concat_groups)
qed










end
